theory Spec2Isabelle
  imports Complex_Main
begin

section \<open>CityGuardGame: the simulation core of the GameCanvas component\<close>

text \<open>
  The development embeds the gameplay part of \<^verbatim>\<open>GameCanvas\<close> (the first variant of the
  component, lines 1 to 1535 of the source file; the later variants repeat the same
  simulation code). TypeScript's \<^verbatim>\<open>number\<close> is modelled by \<^typ>\<open>real\<close>: rounding of
  IEEE doubles, NaN and infinities are outside the model. The health of an enemy and the
  combo multiplier only ever hold integers in the source (they are assigned integer
  literals and changed by one), so they are \<^typ>\<open>int\<close>.

  Mutable React refs become the fields of one record \<open>game\<close> that every function takes
  and returns. The two ambient sources of nondeterminism, \<^verbatim>\<open>Math.random()\<close> and
  \<^verbatim>\<open>Date.now()\<close>, are fields of that record as well: an arbitrary sequence of draws
  and of clock readings, each with the position of the next value to hand out.
  Rendering and audio do not change any ref of the simulation and are left out.
\<close>

subsection \<open>Types (types.ts)\<close>

type_synonym number = real

record Point =
  pt_x :: number
  pt_y :: number

record Building =
  b_id :: number
  b_x :: number
  b_y :: number
  b_width :: number
  b_height :: number
  isDestroyed :: bool

datatype EnemyType = STANDARD | FAST | HEAVY | WOBBLY | BULLET | LASER | BOMB

record EnemyMissile =
  e_id :: number
  e_type :: EnemyType
  e_x :: number
  e_y :: number
  e_startX :: number
  e_startY :: number
  e_targetX :: number
  e_targetY :: number
  totalDistance :: number
  traveledDistance :: number
  e_speed :: number
  color :: string
  e_trail :: "Point list"
  health :: int
  maxHealth :: int
  hitByExplosionIds :: "number list"

record Interceptor =
  i_id :: number
  i_x :: number
  i_y :: number
  i_startX :: number
  i_startY :: number
  i_targetX :: number
  i_targetY :: number
  i_speed :: number
  exploded :: bool
  i_trail :: "Point list"

record Projectile =
  p_id :: number
  p_x :: number
  p_y :: number
  velocityX :: number
  velocityY :: number
  p_speed :: number
  p_trail :: "Point list"

record Explosion =
  ex_id :: number
  ex_x :: number
  ex_y :: number
  currentRadius :: number
  maxRadius :: number
  alpha :: number

datatype GameState = MENU | PLAYING | LEVEL_COMPLETE | GAME_OVER | PAUSED

datatype Difficulty = EASY | MEDIUM | HARD

record UpgradeStats =
  speedLevel :: number
  radiusLevel :: number
  rateLevel :: number
  turretLevel :: number
  shieldLevel :: number
  targetingLevel :: number

subsection \<open>Props and refs of the component\<close>

text \<open>
  \<open>canvas\<close> is the size \<open>(width, height)\<close> of the canvas element, \<open>None\<close> when
  \<^verbatim>\<open>canvasRef.current\<close> (or its 2d context) is null. \<open>renderedScore\<close> is the value
  of the \<^verbatim>\<open>displayScore\<close> state that the closures of the current render captured.
\<close>

record props =
  gameState :: GameState
  level :: number
  difficulty :: Difficulty
  upgradeStats :: UpgradeStats
  canvas :: "(number \<times> number) option"
  renderedScore :: int

record game =
  buildings :: "Building list"
  enemies :: "EnemyMissile list"
  interceptors :: "Interceptor list"
  explosions :: "Explosion list"
  projectiles :: "Projectile list"
  shieldEnergy :: number
  shieldHitTime :: number
  lastTurretFireTime :: number
  multiplier :: int
  lastKillTime :: number
  lastTime :: number
  levelTime :: number
  nextSpawnTime :: number
  lastShotTime :: number
  gameOverStart :: number
  buildingsLostInLevel :: nat
  enemiesDestroyed :: nat
  warningPlayed :: bool
  displayTime :: int
  displayScore :: int
  displayMultiplier :: int
  comboProgress :: number
  randoms :: "nat \<Rightarrow> number"
  randomPos :: nat
  clock :: "nat \<Rightarrow> number"
  clockPos :: nat

definition LEVEL_DURATION :: number where
  "LEVEL_DURATION = 30"

definition COMBO_TIMEOUT :: number where
  "COMBO_TIMEOUT = 2500"

text \<open>
  \<^verbatim>\<open>Math.random()\<close> returns a number in \<open>[0, 1)\<close>: the next element of the sequence,
  reduced to its fractional part. \<^verbatim>\<open>Date.now()\<close> returns the next clock reading.
\<close>

definition mathRandom :: "game \<Rightarrow> number \<times> game" where
  "mathRandom s = (frac (randoms s (randomPos s)), s\<lparr>randomPos := Suc (randomPos s)\<rparr>)"

definition dateNow :: "game \<Rightarrow> number \<times> game" where
  "dateNow s = (clock s (clockPos s), s\<lparr>clockPos := Suc (clockPos s)\<rparr>)"

definition hypot :: "number \<Rightarrow> number \<Rightarrow> number" where
  "hypot a b = sqrt (a * a + b * b)"

subsection \<open>Stats derived from the upgrades (lines 66 to 74)\<close>

definition interceptorSpeed :: "UpgradeStats \<Rightarrow> number" where
  "interceptorSpeed u = 600 + speedLevel u * 150"

definition explosionMaxRadius :: "UpgradeStats \<Rightarrow> number" where
  "explosionMaxRadius u = 60 + radiusLevel u * 15"

definition fireCooldown :: "UpgradeStats \<Rightarrow> number" where
  "fireCooldown u = max 100 (500 - rateLevel u * 50)"

definition shieldMaxEnergy :: "UpgradeStats \<Rightarrow> number" where
  "shieldMaxEnergy u = shieldLevel u * 100"

definition turretCooldown :: "UpgradeStats \<Rightarrow> number" where
  "turretCooldown u = max 200 (1000 - turretLevel u * 100)"

subsection \<open>initLevel (lines 238 to 288)\<close>

text \<open>The six buildings of a new game, for a canvas of the given size.\<close>

definition newBuilding :: "number \<Rightarrow> number \<Rightarrow> nat \<Rightarrow> Building" where
  "newBuilding width height i =
     (let buildingCount = 6; buildingWidth = 60;
          gap = (width - buildingCount * buildingWidth) / (buildingCount + 1)
      in \<lparr>b_id = real i, b_x = gap + real i * (buildingWidth + gap), b_y = height - 50,
          b_width = buildingWidth, b_height = 40, isDestroyed = False\<rparr>)"

definition initLevel :: "props \<Rightarrow> game \<Rightarrow> game" where
  "initLevel p s =
     (case canvas p of
        None \<Rightarrow> s
      | Some (width, height) \<Rightarrow>
          (let s1 = s\<lparr>enemies := [], interceptors := [], explosions := [], projectiles := [],
                      levelTime := 0, nextSpawnTime := 0, buildingsLostInLevel := 0,
                      enemiesDestroyed := 0, lastShotTime := 0, lastTurretFireTime := 0,
                      warningPlayed := False, gameOverStart := 0,
                      multiplier := 1, lastKillTime := 0, displayMultiplier := 1,
                      shieldEnergy := shieldLevel (upgradeStats p) * 100, shieldHitTime := 0\<rparr>
           in if level p = 1 \<or> length (buildings s1) = 0
              then s1\<lparr>buildings := map (newBuilding width height) [0..<6], displayScore := 0\<rparr>
              else s1))"

subsection \<open>handleCanvasClick (lines 291 to 328)\<close>

text \<open>
  \<open>cx, cy\<close> is the click position relative to the canvas. The id of the new interceptor
  is \<^verbatim>\<open>Date.now() + Math.random()\<close>, read after the cooldown test.
\<close>

definition handleCanvasClick :: "props \<Rightarrow> number \<Rightarrow> number \<Rightarrow> game \<Rightarrow> game" where
  "handleCanvasClick p cx cy s =
     (if gameState p \<noteq> PLAYING then s
      else
        (let (now, s1) = dateNow s in
         if now - lastShotTime s1 < fireCooldown (upgradeStats p) then s1
         else
           (let s2 = s1\<lparr>lastShotTime := now\<rparr> in
            case canvas p of
              None \<Rightarrow> s2
            | Some (width, height) \<Rightarrow>
                (let startX = width / 2; startY = height - 20;
                     (t, s3) = dateNow s2; (r, s4) = mathRandom s3
                 in s4\<lparr>interceptors := interceptors s4 @
                      [\<lparr>i_id = t + r, i_x = startX, i_y = startY, i_startX = startX,
                        i_startY = startY, i_targetX = cx, i_targetY = cy,
                        i_speed = interceptorSpeed (upgradeStats p), exploded = False,
                        i_trail = []\<rparr>]\<rparr>))))"

subsection \<open>Small helpers for arrays and angles\<close>

text \<open>\<^verbatim>\<open>xs.splice(i, 1)\<close>.\<close>

definition removeAt :: "nat \<Rightarrow> 'a list \<Rightarrow> 'a list" where
  "removeAt i xs = take i xs @ drop (Suc i) xs"

text \<open>\<^verbatim>\<open>trail.push(pt); if (trail.length > n) trail.shift()\<close>.\<close>

definition pushTrail :: "nat \<Rightarrow> Point \<Rightarrow> Point list \<Rightarrow> Point list" where
  "pushTrail n pt trail = (let t1 = trail @ [pt] in if length t1 > n then tl t1 else t1)"

text \<open>\<^verbatim>\<open>Math.atan2(y, x)\<close> on finite arguments.\<close>

definition atan2 :: "number \<Rightarrow> number \<Rightarrow> number" where
  "atan2 y x =
     (if x > 0 then arctan (y / x)
      else if x < 0 then (if y \<ge> 0 then arctan (y / x) + pi else arctan (y / x) - pi)
      else if y > 0 then pi / 2
      else if y < 0 then - pi / 2
      else 0)"

definition pushExplosion :: "Explosion \<Rightarrow> game \<Rightarrow> game" where
  "pushExplosion ex s = s\<lparr>explosions := explosions s @ [ex]\<rparr>"

text \<open>
  The explosion literals of the source. Those of a kill, a shield block and an impact
  take \<^verbatim>\<open>Date.now()\<close> as id; the spark of a survived hit and the blast of an
  interceptor take \<^verbatim>\<open>Date.now() + Math.random()\<close>.
\<close>

definition explodeAt :: "number \<Rightarrow> number \<Rightarrow> number \<Rightarrow> number \<Rightarrow> game \<Rightarrow> game" where
  "explodeAt ax ay r0 rmax s =
     (let (t, s1) = dateNow s
      in pushExplosion \<lparr>ex_id = t, ex_x = ax, ex_y = ay, currentRadius = r0,
                         maxRadius = rmax, alpha = 1\<rparr> s1)"

definition explodeAtRnd :: "number \<Rightarrow> number \<Rightarrow> number \<Rightarrow> number \<Rightarrow> game \<Rightarrow> game" where
  "explodeAtRnd ax ay r0 rmax s =
     (let (t, s1) = dateNow s; (r, s2) = mathRandom s1
      in pushExplosion \<lparr>ex_id = t + r, ex_x = ax, ex_y = ay, currentRadius = r0,
                         maxRadius = rmax, alpha = 1\<rparr> s2)"

subsection \<open>Scoring and combo (lines 493 to 504 and 626 to 658)\<close>

definition comboTimeoutCheck :: "number \<Rightarrow> game \<Rightarrow> game" where
  "comboTimeoutCheck now s =
     (if multiplier s > 1 then
        (let timeSinceKill = now - lastKillTime s in
         if timeSinceKill > COMBO_TIMEOUT
         then s\<lparr>multiplier := 1, displayMultiplier := 1, comboProgress := 0\<rparr>
         else s\<lparr>comboProgress := 1 - timeSinceKill / COMBO_TIMEOUT\<rparr>)
      else s)"

definition baseScore :: "EnemyType \<Rightarrow> number" where
  "baseScore ty =
     (let b0 = 10;
          b1 = (if ty = FAST then 20 else b0);
          b2 = (if ty = BULLET then 25 else b1);
          b3 = (if ty = WOBBLY then 30 else b2);
          b4 = (if ty = LASER then 35 else b3);
          b5 = (if ty = HEAVY then 40 else b4)
      in if ty = BOMB then 40 else b5)"

definition diffMult :: "Difficulty \<Rightarrow> number" where
  "diffMult d =
     (let m0 = 1; m1 = (if d = HARD then 1.5 else m0) in if d = EASY then 0.8 else m1)"

definition handleKill :: "props \<Rightarrow> number \<Rightarrow> EnemyMissile \<Rightarrow> game \<Rightarrow> game" where
  "handleKill p now enemy s =
     (let s1 = s\<lparr>enemiesDestroyed := enemiesDestroyed s + 1\<rparr>;
          timeSinceLast = now - lastKillTime s1;
          s2 = (if timeSinceLast < COMBO_TIMEOUT
                then s1\<lparr>multiplier := min (multiplier s1 + 1) 10\<rparr>
                else s1\<lparr>multiplier := 1\<rparr>);
          s3 = s2\<lparr>lastKillTime := now, displayMultiplier := multiplier s2, comboProgress := 1\<rparr>;
          totalScore = \<lceil>baseScore (e_type enemy) * diffMult (difficulty p)
                          * of_int (multiplier s3)\<rceil>
      in s3\<lparr>displayScore := displayScore s3 + totalScore\<rparr>)"

text \<open>The loss of a building breaks the combo (lines 902 to 905).\<close>

definition breakCombo :: "game \<Rightarrow> game" where
  "breakCombo s = s\<lparr>multiplier := 1, displayMultiplier := 1, comboProgress := 0\<rparr>"

subsection \<open>Level timer and warning (lines 506 to 525)\<close>

definition advanceLevelTimer :: "number \<Rightarrow> game \<Rightarrow> number \<times> game" where
  "advanceLevelTimer deltaTime s =
     (let s1 = s\<lparr>levelTime := levelTime s + deltaTime\<rparr>;
          timeLeft = max 0 (LEVEL_DURATION - levelTime s1)
      in (timeLeft, s1\<lparr>displayTime := \<lceil>timeLeft\<rceil>\<rparr>))"

definition audioWarning :: "game \<Rightarrow> game" where
  "audioWarning s =
     (let timeUntilSpawn = nextSpawnTime s - levelTime s in
      if timeUntilSpawn < 0.5 \<and> timeUntilSpawn > 0 \<and> \<not> warningPlayed s
      then s\<lparr>warningPlayed := True\<rparr> else s)"

subsection \<open>Spawner (lines 330 to 417 and 527 to 586)\<close>

text \<open>The level at which each enemy type unlocks, and the speed factor of the difficulty.\<close>

record entryLevels =
  fastStart :: number
  bombStart :: number
  heavyStart :: number
  bulletStart :: number
  wobblyStart :: number
  laserStart :: number
  difficultySpeedMod :: number

definition entryLevelsOf :: "Difficulty \<Rightarrow> entryLevels" where
  "entryLevelsOf d =
     (if d = EASY then
        \<lparr>fastStart = 3, bombStart = 4, heavyStart = 6, bulletStart = 7, wobblyStart = 8,
         laserStart = 9, difficultySpeedMod = 0.8\<rparr>
      else if d = HARD then
        \<lparr>fastStart = 1, bombStart = 2, heavyStart = 3, bulletStart = 3, wobblyStart = 5,
         laserStart = 5, difficultySpeedMod = 1.25\<rparr>
      else
        \<lparr>fastStart = 2, bombStart = 3, heavyStart = 4, bulletStart = 5, wobblyStart = 6,
         laserStart = 7, difficultySpeedMod = 1\<rparr>)"

definition availableTypes :: "number \<Rightarrow> entryLevels \<Rightarrow> EnemyType list" where
  "availableTypes lv el =
     [STANDARD]
     @ (if lv \<ge> fastStart el then [FAST] else [])
     @ (if lv \<ge> bombStart el then [BOMB] else [])
     @ (if lv \<ge> heavyStart el then [HEAVY] else [])
     @ (if lv \<ge> bulletStart el then [BULLET] else [])
     @ (if lv \<ge> wobblyStart el then [WOBBLY] else [])
     @ (if lv \<ge> laserStart el then [LASER] else [])"

definition typeSpeedMultiplier :: "EnemyType \<Rightarrow> number" where
  "typeSpeedMultiplier ty =
     (case ty of FAST \<Rightarrow> 1.6 | HEAVY \<Rightarrow> 0.5 | WOBBLY \<Rightarrow> 0.8 | BOMB \<Rightarrow> 0.6
               | BULLET \<Rightarrow> 2.2 | LASER \<Rightarrow> 2.5 | STANDARD \<Rightarrow> 1)"

definition typeColor :: "EnemyType \<Rightarrow> string" where
  "typeColor ty =
     (case ty of FAST \<Rightarrow> ''#facc15'' | HEAVY \<Rightarrow> ''#c2410c'' | WOBBLY \<Rightarrow> ''#d946ef''
               | BOMB \<Rightarrow> ''#1e293b'' | BULLET \<Rightarrow> ''#cbd5e1'' | LASER \<Rightarrow> ''#a3e635''
               | STANDARD \<Rightarrow> ''#ef4444'')"

text \<open>
  The index \<open>\<lfloor>r * (n - 1)\<rfloor> + 1\<close> is within the array because a draw is in \<open>[0, 1)\<close>.
\<close>

definition getEnemyConfig ::
  "number \<Rightarrow> Difficulty \<Rightarrow> game \<Rightarrow> (EnemyType \<times> number \<times> string) \<times> game" where
  "getEnemyConfig lv d s =
     (let (rand, s1) = mathRandom s;
          el = entryLevelsOf d;
          av = availableTypes lv el;
          (ty1, s2) =
            (if length av > 1 then
               (if rand > 0.4 then
                  (let (r, s') = mathRandom s1
                   in (av ! (nat \<lfloor>r * (real (length av) - 1)\<rfloor> + 1), s'))
                else (STANDARD, s1))
             else (STANDARD, s1));
          ty = (if d = HARD \<and> lv \<ge> 3 \<and> rand > 0.9 then FAST else ty1)
      in ((ty, typeSpeedMultiplier ty * difficultySpeedMod el, typeColor ty), s2))"

text \<open>Lines 574 to 581: the upper end of the interval to the next spawn.\<close>

definition baseRate :: "number \<Rightarrow> number" where
  "baseRate lv = max 0.4 (2.5 - lv * 0.15)"

definition rateMod :: "Difficulty \<Rightarrow> number" where
  "rateMod d = (let m0 = 1; m1 = (if d = EASY then 1.3 else m0) in if d = HARD then 0.7 else m1)"

definition spawnRate :: "props \<Rightarrow> number" where
  "spawnRate p = baseRate (level p) * rateMod (difficulty p)"

text \<open>Line 583, with the reset of the warning flag.\<close>

definition scheduleNextSpawn :: "props \<Rightarrow> game \<Rightarrow> game" where
  "scheduleNextSpawn p s =
     (let (r, s1) = mathRandom s
      in s1\<lparr>nextSpawnTime := levelTime s1 + r * spawnRate p, warningPlayed := False\<rparr>)"

text \<open>
  The target building is \<^verbatim>\<open>activeBuildings[Math.floor(Math.random() * length)]\<close>, an
  index within the non-empty array, so the fallback of the source's conditional
  (\<^verbatim>\<open>Math.random() * canvas.width\<close>) is never evaluated.
\<close>

definition spawnEnemies :: "props \<Rightarrow> number \<Rightarrow> number \<Rightarrow> game \<Rightarrow> game" where
  "spawnEnemies p width height s =
     (if levelTime s > nextSpawnTime s then
        (let activeBuildings = filter (\<lambda>b. \<not> isDestroyed b) (buildings s) in
         if length activeBuildings > 0 then
           (let (r1, s1) = mathRandom s;
                targetB = activeBuildings ! nat \<lfloor>r1 * real (length activeBuildings)\<rfloor>;
                targetX = b_x targetB + b_width targetB / 2;
                targetY = height;
                (r2, s2) = mathRandom s1;
                startX0 = r2 * width;
                startY = - 30;
                baseSpeed = 50 + level p * 10;
                ((ty, speedMultiplier, col), s3) = getEnemyConfig (level p) (difficulty p) s2;
                startX = (if ty = BOMB then targetX else startX0);
                dist = hypot (targetX - startX) (targetY - startY);
                maxH = (if ty = HEAVY then 3 else 1);
                (t, s4) = dateNow s3;
                (r3, s5) = mathRandom s4;
                (r4, s6) = mathRandom s5;
                s7 = s6\<lparr>enemies := enemies s6 @
                       [\<lparr>e_id = t + r3, e_type = ty, e_x = startX, e_y = startY,
                         e_startX = startX, e_startY = startY, e_targetX = targetX,
                         e_targetY = targetY, totalDistance = dist, traveledDistance = 0,
                         e_speed = (baseSpeed + r4 * 40) * speedMultiplier, color = col,
                         e_trail = [], health = maxH, maxHealth = maxH,
                         hitByExplosionIds = []\<rparr>]\<rparr>
            in scheduleNextSpawn p s7)
         else s)
      else s)"

subsection \<open>Auto-turret (lines 588 to 623)\<close>

text \<open>
  The search for the closest enemy; \<open>None\<close> stands for the initial
  \<^verbatim>\<open>closestDist = Infinity, closestEnemy = null\<close>.
\<close>

definition closestStep ::
  "number \<Rightarrow> number \<Rightarrow> number \<Rightarrow> (number \<times> EnemyMissile) option \<Rightarrow> EnemyMissile
     \<Rightarrow> (number \<times> EnemyMissile) option" where
  "closestStep turretX turretY height acc e =
     (let d = hypot (e_x e - turretX) (e_y e - turretY);
          closer = (case acc of None \<Rightarrow> True | Some (closestDist, _) \<Rightarrow> d < closestDist)
      in if closer \<and> e_y e < height - 100 then Some (d, e) else acc)"

definition autoTurret :: "props \<Rightarrow> number \<Rightarrow> number \<Rightarrow> game \<Rightarrow> game" where
  "autoTurret p now height s =
     (if turretLevel (upgradeStats p) > 0 then
        (if now - lastTurretFireTime s > turretCooldown (upgradeStats p) then
           (let turretX = 60; turretY = height - 40 in
            case foldl (closestStep turretX turretY height) None (enemies s) of
              None \<Rightarrow> s
            | Some (_, closestEnemy) \<Rightarrow>
                (let angle = atan2 (e_y closestEnemy - turretY) (e_x closestEnemy - turretX);
                     pSpeed = 800;
                     (r, s1) = mathRandom s
                 in s1\<lparr>projectiles := projectiles s1 @
                        [\<lparr>p_id = now + r, p_x = turretX, p_y = turretY,
                          velocityX = cos angle * pSpeed, velocityY = sin angle * pSpeed,
                          p_speed = pSpeed, p_trail = []\<rparr>],
                       lastTurretFireTime := now\<rparr>))
         else s)
      else s)"

subsection \<open>Turret projectiles (lines 660 to 715)\<close>

text \<open>
  The inner loop runs from the last enemy to the first and stops at the first one closer
  than 20: \<open>findHit p es n\<close> searches the indices below \<open>n\<close>.
\<close>

fun findHit :: "Projectile \<Rightarrow> EnemyMissile list \<Rightarrow> nat \<Rightarrow> nat option" where
  "findHit p es 0 = None"
| "findHit p es (Suc j) =
     (if hypot (p_x p - e_x (es ! j)) (p_y p - e_y (es ! j)) < 20 then Some j
      else findHit p es j)"

definition projectileHit :: "props \<Rightarrow> number \<Rightarrow> nat \<Rightarrow> nat \<Rightarrow> game \<Rightarrow> game" where
  "projectileHit p now i j s =
     (let s1 = s\<lparr>projectiles := removeAt i (projectiles s)\<rparr>;
          e0 = enemies s1 ! j;
          e = e0\<lparr>health := health e0 - 1\<rparr>
      in if health e \<le> 0 then
           handleKill p now e
             (explodeAt (e_x e) (e_y e) 5 30 (s1\<lparr>enemies := removeAt j (enemies s1)\<rparr>))
         else explodeAtRnd (e_x e) (e_y e) 2 10 (s1\<lparr>enemies := (enemies s1)[j := e]\<rparr>))"

definition projectileStep :: "props \<Rightarrow> number \<Rightarrow> number \<Rightarrow> number \<Rightarrow> nat \<Rightarrow> game \<Rightarrow> game" where
  "projectileStep p now deltaTime width i s =
     (let q0 = projectiles s ! i;
          q1 = q0\<lparr>p_x := p_x q0 + velocityX q0 * deltaTime,
                  p_y := p_y q0 + velocityY q0 * deltaTime\<rparr>;
          q = q1\<lparr>p_trail := pushTrail 5 \<lparr>pt_x = p_x q1, pt_y = p_y q1\<rparr> (p_trail q1)\<rparr>;
          s1 = s\<lparr>projectiles := (projectiles s)[i := q]\<rparr>
      in if p_x q < 0 \<or> p_x q > width \<or> p_y q < 0
         then s1\<lparr>projectiles := removeAt i (projectiles s1)\<rparr>
         else (case findHit q (enemies s1) (length (enemies s1)) of
                 None \<Rightarrow> s1
               | Some j \<Rightarrow> projectileHit p now i j s1))"

text \<open>\<open>moveProjectiles \<dots> n\<close> runs the loop body for the indices \<open>n - 1\<close> down to \<open>0\<close>.\<close>

fun moveProjectiles :: "props \<Rightarrow> number \<Rightarrow> number \<Rightarrow> number \<Rightarrow> nat \<Rightarrow> game \<Rightarrow> game" where
  "moveProjectiles p now deltaTime width 0 s = s"
| "moveProjectiles p now deltaTime width (Suc i) s =
     moveProjectiles p now deltaTime width i (projectileStep p now deltaTime width i s)"

subsection \<open>Interceptors (lines 717 to 751)\<close>

definition interceptorStep :: "props \<Rightarrow> number \<Rightarrow> nat \<Rightarrow> game \<Rightarrow> game" where
  "interceptorStep p deltaTime i s =
     (let m0 = interceptors s ! i;
          dx = i_targetX m0 - i_x m0;
          dy = i_targetY m0 - i_y m0;
          dist = sqrt (dx * dx + dy * dy);
          m1 = m0\<lparr>i_trail := pushTrail 20 \<lparr>pt_x = i_x m0, pt_y = i_y m0\<rparr> (i_trail m0)\<rparr>
      in if dist < i_speed m1 * deltaTime then
           (let m2 = m1\<lparr>i_x := i_targetX m1, i_y := i_targetY m1, exploded := True\<rparr>;
                s1 = explodeAtRnd (i_x m2) (i_y m2) 1 (explosionMaxRadius (upgradeStats p)) s
            in s1\<lparr>interceptors := removeAt i (interceptors s1)\<rparr>)
         else
           (let angle = atan2 dy dx;
                m2 = m1\<lparr>i_x := i_x m1 + cos angle * i_speed m1 * deltaTime,
                        i_y := i_y m1 + sin angle * i_speed m1 * deltaTime\<rparr>
            in s\<lparr>interceptors := (interceptors s)[i := m2]\<rparr>))"

fun moveInterceptors :: "props \<Rightarrow> number \<Rightarrow> nat \<Rightarrow> game \<Rightarrow> game" where
  "moveInterceptors p deltaTime 0 s = s"
| "moveInterceptors p deltaTime (Suc i) s =
     moveInterceptors p deltaTime i (interceptorStep p deltaTime i s)"

subsection \<open>Explosions (lines 753 to 763)\<close>

text \<open>One explosion over one tick; \<open>None\<close> when it is spliced out of the array.\<close>

definition updateExplosion :: "number \<Rightarrow> Explosion \<Rightarrow> Explosion option" where
  "updateExplosion deltaTime ex =
     (let ex1 = ex\<lparr>currentRadius := currentRadius ex + 100 * deltaTime\<rparr> in
      if currentRadius ex1 > maxRadius ex1 then
        (let ex2 = ex1\<lparr>alpha := alpha ex1 - 2 * deltaTime\<rparr> in
         if alpha ex2 \<le> 0 then None else Some ex2)
      else Some ex1)"

definition explosionStep :: "number \<Rightarrow> nat \<Rightarrow> game \<Rightarrow> game" where
  "explosionStep deltaTime i s =
     (case updateExplosion deltaTime (explosions s ! i) of
        None \<Rightarrow> s\<lparr>explosions := removeAt i (explosions s)\<rparr>
      | Some ex \<Rightarrow> s\<lparr>explosions := (explosions s)[i := ex]\<rparr>)"

fun updateExplosions :: "number \<Rightarrow> nat \<Rightarrow> game \<Rightarrow> game" where
  "updateExplosions deltaTime 0 s = s"
| "updateExplosions deltaTime (Suc i) s =
     updateExplosions deltaTime i (explosionStep deltaTime i s)"

subsection \<open>Enemies: movement (lines 765 to 801)\<close>

text \<open>Returns the travel fraction \<open>t\<close> and the enemy at its new position.\<close>

definition moveEnemy :: "number \<Rightarrow> EnemyMissile \<Rightarrow> number \<times> EnemyMissile" where
  "moveEnemy deltaTime enemy =
     (let e1 = enemy\<lparr>traveledDistance := traveledDistance enemy + e_speed enemy * deltaTime\<rparr>;
          t = traveledDistance e1 / totalDistance e1;
          maxTrail = (if e_type e1 = WOBBLY \<or> e_type e1 = LASER then 40 else 25);
          e2 = e1\<lparr>e_trail := pushTrail maxTrail \<lparr>pt_x = e_x e1, pt_y = e_y e1\<rparr> (e_trail e1)\<rparr>;
          currentX = e_startX e2 + (e_targetX e2 - e_startX e2) * t;
          currentY = e_startY e2 + (e_targetY e2 - e_startY e2) * t;
          (cx, cy) =
            (if e_type e2 = WOBBLY then
               (let dx = e_targetX e2 - e_startX e2;
                    dy = e_targetY e2 - e_startY e2;
                    angle = atan2 dy dx;
                    perpX = cos (angle + pi / 2);
                    perpY = sin (angle + pi / 2);
                    wave = sin (traveledDistance e2 * 0.03) * 60
                in (currentX + perpX * wave, currentY + perpY * wave))
             else (currentX, currentY))
      in (t, e2\<lparr>e_x := cx, e_y := cy\<rparr>))"

subsection \<open>Enemies: shield collision (lines 803 to 840)\<close>

definition visualShieldRadius :: "UpgradeStats \<Rightarrow> number \<Rightarrow> number" where
  "visualShieldRadius u energy =
     (let baseShieldRadius = 180; energyPct = energy / shieldMaxEnergy u
      in baseShieldRadius * (0.9 + 0.1 * energyPct))"

definition distToShield :: "number \<Rightarrow> number \<Rightarrow> EnemyMissile \<Rightarrow> number" where
  "distToShield width height enemy =
     (let shieldX = width / 2; shieldY = height - 20
      in hypot (e_x enemy - shieldX) (e_y enemy - shieldY))"

definition shieldBlocks :: "props \<Rightarrow> number \<Rightarrow> number \<Rightarrow> EnemyMissile \<Rightarrow> game \<Rightarrow> bool" where
  "shieldBlocks p width height enemy s =
     (shieldLevel (upgradeStats p) > 0 \<and> shieldEnergy s > 0 \<and>
      distToShield width height enemy < visualShieldRadius (upgradeStats p) (shieldEnergy s))"

text \<open>Lines 819 and 820.\<close>

definition damageShield :: "game \<Rightarrow> game" where
  "damageShield s =
     (let s1 = s\<lparr>shieldEnergy := shieldEnergy s - 30\<rparr>
      in if shieldEnergy s1 < 0 then s1\<lparr>shieldEnergy := 0\<rparr> else s1)"

definition shieldAbsorb :: "props \<Rightarrow> number \<Rightarrow> nat \<Rightarrow> EnemyMissile \<Rightarrow> game \<Rightarrow> game" where
  "shieldAbsorb p now i enemy s =
     (let s1 = handleKill p now enemy s;
          s2 = damageShield s1;
          (t, s3) = dateNow s2;
          s4 = s3\<lparr>shieldHitTime := t\<rparr>;
          s5 = explodeAt (e_x enemy) (e_y enemy) 5 20 s4
      in s5\<lparr>enemies := removeAt i (enemies s5)\<rparr>)"

subsection \<open>Enemies: collision with explosions (lines 842 to 886)\<close>

lemma explodeAt_explosions:
  "explosions (explodeAt ax ay r0 rmax s) =
     explosions s @ [\<lparr>ex_id = clock s (clockPos s), ex_x = ax, ex_y = ay, currentRadius = r0,
                      maxRadius = rmax, alpha = 1\<rparr>]"
  by (simp add: explodeAt_def dateNow_def pushExplosion_def)

lemma explodeAtRnd_explosions:
  "explosions (explodeAtRnd ax ay r0 rmax s) =
     explosions s @ [\<lparr>ex_id = clock s (clockPos s) + frac (randoms s (randomPos s)),
                      ex_x = ax, ex_y = ay, currentRadius = r0, maxRadius = rmax, alpha = 1\<rparr>]"
  by (simp add: explodeAtRnd_def dateNow_def mathRandom_def pushExplosion_def)

text \<open>\<^verbatim>\<open>xs.includes(v)\<close>.\<close>

definition arrayIncludes :: "'a list \<Rightarrow> 'a \<Rightarrow> bool" where
  "arrayIncludes xs v = (v \<in> set xs)"

text \<open>
  The \<^verbatim>\<open>for (const exp of explosionsRef.current)\<close> loop of one enemy, from index \<open>k\<close>.
  The array iterator reads the length at every step, so the sparks that the body pushes
  are visited by the same loop. The result is the flag \<^verbatim>\<open>destroyed\<close>, the enemy and
  the state; the \<^verbatim>\<open>break\<close> after a kill ends the loop.
\<close>

function checkExplosions ::
  "props \<Rightarrow> number \<Rightarrow> nat \<Rightarrow> EnemyMissile \<Rightarrow> game \<Rightarrow> bool \<times> EnemyMissile \<times> game" where
  "checkExplosions p now k enemy s =
     (if k < length (explosions s) then
        (let ex = explosions s ! k;
             distToExp = hypot (e_x enemy - ex_x ex) (e_y enemy - ex_y ex)
         in if distToExp < currentRadius ex \<and> \<not> arrayIncludes (hitByExplosionIds enemy) (ex_id ex) then
              (let enemy1 = enemy\<lparr>hitByExplosionIds := hitByExplosionIds enemy @ [ex_id ex],
                                  health := health enemy - 1\<rparr>
               in if health enemy1 \<le> 0 then
                    (True, enemy1,
                     explodeAt (e_x enemy1) (e_y enemy1) 5 30 (handleKill p now enemy1 s))
                  else
                    checkExplosions p now (Suc k) enemy1
                      (explodeAtRnd (e_x enemy1) (e_y enemy1) 2 10 s))
            else checkExplosions p now (Suc k) enemy s)
      else (False, enemy, s))"
  by pat_completeness auto
termination
  by (relation "measure (\<lambda>(p, now, k, enemy, s).
        length (explosions s) + nat (health enemy) - k)")
     (auto simp: explodeAtRnd_explosions)

subsection \<open>Enemies: ground and buildings (lines 888 to 940)\<close>

definition impactRadius :: "EnemyMissile \<Rightarrow> number" where
  "impactRadius enemy = (if e_type enemy = BOMB \<or> e_type enemy = HEAVY then 90 else 40)"

text \<open>
  The body of \<^verbatim>\<open>for (const b of buildingsRef.current)\<close> for the building at index
  \<open>k\<close>; the accumulator is the flag \<^verbatim>\<open>hitBuilding\<close> and the state.
\<close>

definition impactBuilding ::
  "number \<Rightarrow> EnemyMissile \<Rightarrow> bool \<times> game \<Rightarrow> nat \<Rightarrow> bool \<times> game" where
  "impactBuilding height enemy acc k =
     (let (hitBuilding, s) = acc; b = buildings s ! k in
      if \<not> isDestroyed b \<and> e_x enemy \<ge> b_x b \<and> e_x enemy \<le> b_x b + b_width b then
        (let s1 = s\<lparr>buildings := (buildings s)[k := b\<lparr>isDestroyed := True\<rparr>],
                    buildingsLostInLevel := buildingsLostInLevel s + 1\<rparr>;
             s2 = breakCombo s1
         in (True, explodeAt (e_x enemy) (height - 30) 1 (impactRadius enemy) s2))
      else (hitBuilding, s))"

text \<open>The result flag says that every building is destroyed (\<^verbatim>\<open>onGameOver\<close> is called).\<close>

definition groundImpact :: "number \<Rightarrow> nat \<Rightarrow> EnemyMissile \<Rightarrow> game \<Rightarrow> bool \<times> game" where
  "groundImpact height i enemy s =
     (let (hitBuilding, s1) =
            foldl (impactBuilding height enemy) (False, s) [0..<length (buildings s)];
          s2 = (if \<not> hitBuilding
                then explodeAt (e_x enemy) (height - 20) 1 (impactRadius enemy - 20) s1
                else s1);
          s3 = s2\<lparr>enemies := removeAt i (enemies s2)\<rparr>
      in (list_all isDestroyed (buildings s3), s3))"

subsection \<open>Enemies: the loop (lines 765 to 941)\<close>

text \<open>
  The body for the enemy at index \<open>i\<close>. The source mutates the enemy object in place;
  here the enemy is carried along and written back to the array when it stays alive.
  The flag is true when the body ends the tick with \<^verbatim>\<open>onGameOver\<close>.
\<close>

definition enemyStep ::
  "props \<Rightarrow> number \<Rightarrow> number \<Rightarrow> number \<Rightarrow> number \<Rightarrow> nat \<Rightarrow> game \<Rightarrow> bool \<times> game" where
  "enemyStep p now deltaTime width height i s =
     (let (t, enemy) = moveEnemy deltaTime (enemies s ! i) in
      if shieldBlocks p width height enemy s then (False, shieldAbsorb p now i enemy s)
      else
        (let (destroyed, enemy1, s1) = checkExplosions p now 0 enemy s in
         if destroyed then (False, s1\<lparr>enemies := removeAt i (enemies s1)\<rparr>)
         else if t \<ge> 1 \<or> e_y enemy1 \<ge> height - 40 then groundImpact height i enemy1 s1
         else (False, s1\<lparr>enemies := (enemies s1)[i := enemy1]\<rparr>)))"

fun moveEnemies ::
  "props \<Rightarrow> number \<Rightarrow> number \<Rightarrow> number \<Rightarrow> number \<Rightarrow> nat \<Rightarrow> game \<Rightarrow> bool \<times> game" where
  "moveEnemies p now deltaTime width height 0 s = (False, s)"
| "moveEnemies p now deltaTime width height (Suc i) s =
     (case enemyStep p now deltaTime width height i s of
        (True, s1) \<Rightarrow> (True, s1)
      | (False, s1) \<Rightarrow> moveEnemies p now deltaTime width height i s1)"

subsection \<open>update (lines 419 to 941)\<close>

text \<open>
  How one call of \<^verbatim>\<open>update\<close> ends: \<open>NotRunning\<close>, \<open>Stalled\<close>, \<open>NoCanvas\<close>,
  \<open>LevelComplete\<close> and \<open>GameOver\<close> are the early returns of the source (the last two
  after calling \<^verbatim>\<open>onLevelComplete\<close> and \<^verbatim>\<open>onGameOver\<close> with the values they carry);
  \<open>GameOverAnimation\<close> and \<open>NextFrame\<close> reach a \<^verbatim>\<open>requestAnimationFrame\<close>.
\<close>

datatype outcome =
  NotRunning | Stalled | NoCanvas | GameOverAnimation
  | LevelComplete nat nat | GameOver int | NextFrame

definition gameplay ::
  "props \<Rightarrow> number \<Rightarrow> number \<Rightarrow> number \<Rightarrow> number \<Rightarrow> game \<Rightarrow> outcome \<times> game" where
  "gameplay p now deltaTime width height s =
     (let s1 = comboTimeoutCheck now s;
          (timeLeft, s2) = advanceLevelTimer deltaTime s1
      in if timeLeft \<le> 0
         then (LevelComplete (buildingsLostInLevel s2) (enemiesDestroyed s2), s2)
         else
           (let s3 = audioWarning s2;
                s4 = spawnEnemies p width height s3;
                s5 = autoTurret p now height s4;
                s6 = moveProjectiles p now deltaTime width (length (projectiles s5)) s5;
                s7 = moveInterceptors p deltaTime (length (interceptors s6)) s6;
                s8 = updateExplosions deltaTime (length (explosions s7)) s7;
                (over, s9) = moveEnemies p now deltaTime width height (length (enemies s8)) s8
            in if over then (GameOver (renderedScore p), s9) else (NextFrame, s9)))"

definition update :: "props \<Rightarrow> number \<Rightarrow> game \<Rightarrow> outcome \<times> game" where
  "update p time s =
     (if gameState p \<noteq> PLAYING \<and> gameState p \<noteq> GAME_OVER then (NotRunning, s)
      else
        (let deltaTime = (time - lastTime s) / 1000;
             s1 = s\<lparr>lastTime := time\<rparr>;
             (now, s2) = dateNow s1
         in if deltaTime > 0.1 then (Stalled, s2)
            else
              (case canvas p of
                 None \<Rightarrow> (NoCanvas, s2)
               | Some (width, height) \<Rightarrow>
                   if gameState p = GAME_OVER
                   then (GameOverAnimation,
                         if gameOverStart s2 = 0 then s2\<lparr>gameOverStart := time\<rparr> else s2)
                   else gameplay p now deltaTime width height s2)))"

section \<open>Vocabulary of the properties\<close>

text \<open>
  The test of line 847 (the distance of the enemy to the centre of the explosion is less
  than the current radius), the two assignments of lines 850 and 851, and the ids that
  the hit-set of an enemy gained between two moments.
\<close>

definition overlaps :: "EnemyMissile \<Rightarrow> Explosion \<Rightarrow> bool" where
  "overlaps enemy ex = (hypot (e_x enemy - ex_x ex) (e_y enemy - ex_y ex) < currentRadius ex)"

definition recordHit :: "EnemyMissile \<Rightarrow> Explosion \<Rightarrow> EnemyMissile" where
  "recordHit enemy ex =
     enemy\<lparr>hitByExplosionIds := hitByExplosionIds enemy @ [ex_id ex], health := health enemy - 1\<rparr>"

definition hitsSince :: "EnemyMissile \<Rightarrow> EnemyMissile \<Rightarrow> number list" where
  "hitsSince enemy enemy' = drop (length (hitByExplosionIds enemy)) (hitByExplosionIds enemy')"

text \<open>Every building is as before or has fallen since.\<close>

definition onlyFall :: "Building list \<Rightarrow> Building list \<Rightarrow> bool" where
  "onlyFall bs bs' = list_all2 (\<lambda>b b'. b' = b \<or> b' = b\<lparr>isDestroyed := True\<rparr>) bs bs'"

text \<open>The combo multiplier is within its bounds.\<close>

definition comboInRange :: "game \<Rightarrow> bool" where
  "comboInRange s = (1 \<le> multiplier s \<and> multiplier s \<le> 10)"

subsection \<open>Sample inputs\<close>

text \<open>
  Concrete props, states and entities at which the theorems below are instantiated: a
  canvas of 800 by 600, one building, a clock that advances by one millisecond per
  reading and a random generator that always draws 0. \<open>sampleStrike\<close> puts a Heavy enemy
  of health 3 inside one blast; \<open>sampleSiege\<close> puts a Heavy enemy inside the shield; \<open>sampleRuin\<close> is a city of two buildings, the first already destroyed,
  with one enemy about to land, in a later level without upgrades (\<open>laterProps\<close>).
\<close>

definition uniformUpgrades :: "number \<Rightarrow> UpgradeStats" where
  "uniformUpgrades l =
     \<lparr>speedLevel = l, radiusLevel = l, rateLevel = l, turretLevel = l, shieldLevel = l,
      targetingLevel = l\<rparr>"

definition sampleProps :: props where
  "sampleProps =
     \<lparr>gameState = PLAYING, level = 1, difficulty = MEDIUM, upgradeStats = uniformUpgrades 1,
      canvas = Some (800, 600), renderedScore = 0\<rparr>"

definition sampleGame :: game where
  "sampleGame =
     \<lparr>buildings = [newBuilding 800 600 0], enemies = [], interceptors = [],
      explosions = [], projectiles = [], shieldEnergy = 100, shieldHitTime = 0,
      lastTurretFireTime = 0, multiplier = 1, lastKillTime = 0, lastTime = 0, levelTime = 0,
      nextSpawnTime = 0, lastShotTime = 0, gameOverStart = 0, buildingsLostInLevel = 0,
      enemiesDestroyed = 0, warningPlayed = False, displayTime = 30, displayScore = 0,
      displayMultiplier = 1, comboProgress = 0, randoms = (\<lambda>n. 0), randomPos = 0,
      clock = (\<lambda>n. 100000 + real n), clockPos = 0\<rparr>"

definition sampleEnemy :: "EnemyType \<Rightarrow> number \<Rightarrow> number \<Rightarrow> int \<Rightarrow> EnemyMissile" where
  "sampleEnemy ty ax ay h =
     \<lparr>e_id = 1, e_type = ty, e_x = ax, e_y = ay, e_startX = ax, e_startY = - 30,
      e_targetX = ax, e_targetY = 600, totalDistance = 630, traveledDistance = ay + 30,
      e_speed = 60, color = typeColor ty, e_trail = [], health = h, maxHealth = h,
      hitByExplosionIds = []\<rparr>"

definition sampleBlast :: "number \<Rightarrow> number \<Rightarrow> Explosion" where
  "sampleBlast r a =
     \<lparr>ex_id = 7, ex_x = 100, ex_y = 110, currentRadius = r, maxRadius = 60, alpha = a\<rparr>"


definition sampleSiege :: "number \<Rightarrow> game" where
  "sampleSiege e =
     sampleGame\<lparr>shieldEnergy := e, enemies := [sampleEnemy HEAVY 560 580 3],
                nextSpawnTime := 5\<rparr>"

definition sampleRuin :: "number \<Rightarrow> game" where
  "sampleRuin ax =
     sampleGame\<lparr>buildings := [(newBuilding 800 600 0)\<lparr>isDestroyed := True\<rparr>,
                               newBuilding 800 600 1],
                enemies := [sampleEnemy STANDARD ax 560 1], nextSpawnTime := 5\<rparr>"

definition laterProps :: props where
  "laterProps = sampleProps\<lparr>level := 2, upgradeStats := uniformUpgrades 0\<rparr>"

section \<open>Auxiliary facts\<close>

subsection \<open>Distances and the explosion literals\<close>

lemma hypot_less_iff: "hypot a b < r \<longleftrightarrow> 0 < r \<and> a * a + b * b < r * r"
proof (cases "0 < r")
  case True
  have "sqrt (a * a + b * b) < sqrt (r * r) \<longleftrightarrow> a * a + b * b < r * r"
    by (rule real_sqrt_less_iff)
  moreover have "sqrt (r * r) = r" using True by simp
  ultimately show ?thesis using True by (simp add: hypot_def)
next
  case False
  have "0 \<le> sqrt (a * a + b * b)" by simp
  with False have "\<not> sqrt (a * a + b * b) < r" by linarith
  with False show ?thesis by (simp add: hypot_def)
qed

lemma handleKill_frame [simp]:
  "buildings (handleKill p now e s) = buildings s"
  "enemies (handleKill p now e s) = enemies s"
  "explosions (handleKill p now e s) = explosions s"
  "projectiles (handleKill p now e s) = projectiles s"
  "interceptors (handleKill p now e s) = interceptors s"
  "shieldEnergy (handleKill p now e s) = shieldEnergy s"
  "clock (handleKill p now e s) = clock s"
  "clockPos (handleKill p now e s) = clockPos s"
  "randoms (handleKill p now e s) = randoms s"
  "randomPos (handleKill p now e s) = randomPos s"
  "enemiesDestroyed (handleKill p now e s) = Suc (enemiesDestroyed s)"
  by (simp_all add: handleKill_def Let_def)

lemma explodeAt_frame [simp]:
  "buildings (explodeAt ax ay r0 rmax s) = buildings s"
  "enemies (explodeAt ax ay r0 rmax s) = enemies s"
  "projectiles (explodeAt ax ay r0 rmax s) = projectiles s"
  "interceptors (explodeAt ax ay r0 rmax s) = interceptors s"
  "shieldEnergy (explodeAt ax ay r0 rmax s) = shieldEnergy s"
  "multiplier (explodeAt ax ay r0 rmax s) = multiplier s"
  "enemiesDestroyed (explodeAt ax ay r0 rmax s) = enemiesDestroyed s"
  by (simp_all add: explodeAt_def dateNow_def pushExplosion_def)

lemma explodeAtRnd_frame [simp]:
  "buildings (explodeAtRnd ax ay r0 rmax s) = buildings s"
  "enemies (explodeAtRnd ax ay r0 rmax s) = enemies s"
  "projectiles (explodeAtRnd ax ay r0 rmax s) = projectiles s"
  "interceptors (explodeAtRnd ax ay r0 rmax s) = interceptors s"
  "shieldEnergy (explodeAtRnd ax ay r0 rmax s) = shieldEnergy s"
  "multiplier (explodeAtRnd ax ay r0 rmax s) = multiplier s"
  "enemiesDestroyed (explodeAtRnd ax ay r0 rmax s) = enemiesDestroyed s"
  by (simp_all add: explodeAtRnd_def dateNow_def mathRandom_def pushExplosion_def)


subsection \<open>The explosion check of one enemy\<close>

declare checkExplosions.simps [simp del]

lemma checkExplosions_done:
  "\<not> k < length (explosions s) \<Longrightarrow> checkExplosions p now k enemy s = (False, enemy, s)"
  by (subst checkExplosions.simps) simp

lemma checkExplosions_miss:
  assumes "k < length (explosions s)"
    and "\<not> overlaps enemy (explosions s ! k) \<or> ex_id (explosions s ! k) \<in> set (hitByExplosionIds enemy)"
  shows "checkExplosions p now k enemy s = checkExplosions p now (Suc k) enemy s"
  using assms by (subst checkExplosions.simps) (auto simp: overlaps_def arrayIncludes_def Let_def)

lemma checkExplosions_kill:
  assumes "k < length (explosions s)"
    and "overlaps enemy (explosions s ! k)"
    and "ex_id (explosions s ! k) \<notin> set (hitByExplosionIds enemy)"
    and "health enemy \<le> 1"
  shows "checkExplosions p now k enemy s =
           (True, recordHit enemy (explosions s ! k),
            explodeAt (e_x enemy) (e_y enemy) 5 30
              (handleKill p now (recordHit enemy (explosions s ! k)) s))"
  using assms
  by (subst checkExplosions.simps) (simp add: overlaps_def arrayIncludes_def Let_def recordHit_def)

lemma checkExplosions_spark:
  assumes "k < length (explosions s)"
    and "overlaps enemy (explosions s ! k)"
    and "ex_id (explosions s ! k) \<notin> set (hitByExplosionIds enemy)"
    and "1 < health enemy"
  shows "checkExplosions p now k enemy s =
           checkExplosions p now (Suc k) (recordHit enemy (explosions s ! k))
             (explodeAtRnd (e_x enemy) (e_y enemy) 2 10 s)"
  using assms
  by (subst checkExplosions.simps) (simp add: overlaps_def arrayIncludes_def Let_def recordHit_def)

lemma checkExplosions_cases [case_names finished missed killed sparked]:
  assumes "\<And>p now k enemy s. \<not> k < length (explosions s) \<Longrightarrow> P p now k enemy s"
    and "\<And>p now k enemy s. k < length (explosions s) \<Longrightarrow>
           \<not> overlaps enemy (explosions s ! k) \<or> ex_id (explosions s ! k) \<in> set (hitByExplosionIds enemy) \<Longrightarrow>
           P p now (Suc k) enemy s \<Longrightarrow> P p now k enemy s"
    and "\<And>p now k enemy s. k < length (explosions s) \<Longrightarrow> overlaps enemy (explosions s ! k) \<Longrightarrow>
           ex_id (explosions s ! k) \<notin> set (hitByExplosionIds enemy) \<Longrightarrow> health enemy \<le> 1 \<Longrightarrow>
           P p now k enemy s"
    and "\<And>p now k enemy s. k < length (explosions s) \<Longrightarrow> overlaps enemy (explosions s ! k) \<Longrightarrow>
           ex_id (explosions s ! k) \<notin> set (hitByExplosionIds enemy) \<Longrightarrow> 1 < health enemy \<Longrightarrow>
           P p now (Suc k) (recordHit enemy (explosions s ! k))
             (explodeAtRnd (e_x enemy) (e_y enemy) 2 10 s) \<Longrightarrow>
           P p now k enemy s"
  shows "P (p::props) (now::number) (k::nat) (enemy::EnemyMissile) (s::game)"
proof (induction p now k enemy s rule: checkExplosions.induct)
  case (1 p now k enemy s)
  show ?case
  proof (cases "k < length (explosions s)")
    case False
    then show ?thesis by (rule assms(1))
  next
    case inrange: True
    show ?thesis
    proof (cases "overlaps enemy (explosions s ! k)
                  \<and> ex_id (explosions s ! k) \<notin> set (hitByExplosionIds enemy)")
      case False
      then have c: "\<not> (hypot (e_x enemy - ex_x (explosions s ! k)) (e_y enemy - ex_y (explosions s ! k))
                 < currentRadius (explosions s ! k)
                \<and> \<not> arrayIncludes (hitByExplosionIds enemy) (ex_id (explosions s ! k)))"
        by (simp add: overlaps_def arrayIncludes_def)
      from False have "\<not> overlaps enemy (explosions s ! k) \<or> ex_id (explosions s ! k) \<in> set (hitByExplosionIds enemy)"
        by blast
      with inrange show ?thesis
        using "1.IH"(2)[OF inrange refl refl c] by (rule assms(2))
    next
      case hit: True
      then have c: "hypot (e_x enemy - ex_x (explosions s ! k)) (e_y enemy - ex_y (explosions s ! k))
                 < currentRadius (explosions s ! k)
                \<and> \<not> arrayIncludes (hitByExplosionIds enemy) (ex_id (explosions s ! k))"
        by (simp add: overlaps_def arrayIncludes_def)
      show ?thesis
      proof (cases "health enemy \<le> 1")
        case True
        with inrange hit show ?thesis by (auto intro: assms(3))
      next
        case False
        then have h: "\<not> health (enemy\<lparr>hitByExplosionIds := hitByExplosionIds enemy @ [ex_id (explosions s ! k)],
                                  health := health enemy - 1\<rparr>) \<le> 0" by simp
        from "1.IH"(1)[OF inrange refl refl c refl h]
        have step: "P p now (Suc k) (recordHit enemy (explosions s ! k))
                (explodeAtRnd (e_x enemy) (e_y enemy) 2 10 s)"
          by (simp add: recordHit_def)
        from False have "1 < health enemy" by simp
        with inrange hit step show ?thesis by (blast intro: assms(4))
      qed
    qed
  qed
qed


lemma recordHit_simps [simp]:
  "hitByExplosionIds (recordHit enemy ex) = hitByExplosionIds enemy @ [ex_id ex]"
  "health (recordHit enemy ex) = health enemy - 1"
  "e_x (recordHit enemy ex) = e_x enemy"
  "e_y (recordHit enemy ex) = e_y enemy"
  "e_type (recordHit enemy ex) = e_type enemy"
  "overlaps (recordHit enemy ex) ex' = overlaps enemy ex'"
  by (simp_all add: recordHit_def overlaps_def)

lemma checkExplosions_record:
  "let r = checkExplosions p now k enemy s; destroyed = fst r; enemy' = fst (snd r);
       new = hitsSince enemy enemy'
   in hitByExplosionIds enemy' = hitByExplosionIds enemy @ new
      \<and> distinct new
      \<and> set new \<inter> set (hitByExplosionIds enemy) = {}
      \<and> health enemy' = health enemy - int (length new)
      \<and> enemy'\<lparr>hitByExplosionIds := hitByExplosionIds enemy, health := health enemy\<rparr> = enemy
      \<and> (destroyed \<longrightarrow> new \<noteq> [] \<and> health enemy' \<le> 0)
      \<and> (\<not> destroyed \<longrightarrow> new = [] \<or> 0 < health enemy')"
proof (induction p now k enemy s rule: checkExplosions_cases)
  case (finished p now k enemy s)
  then show ?case by (simp add: checkExplosions_done hitsSince_def)
next
  case (missed p now k enemy s)
  then show ?case by (simp add: checkExplosions_miss)
next
  case (killed p now k enemy s)
  then show ?case
    by (simp add: checkExplosions_kill hitsSince_def Let_def) (simp add: recordHit_def)
next
  case (sparked p now k enemy s)
  let ?ex = "explosions s ! k"
  let ?r = "checkExplosions p now (Suc k) (recordHit enemy ?ex)
              (explodeAtRnd (e_x enemy) (e_y enemy) 2 10 s)"
  let ?e' = "fst (snd ?r)"
  let ?new = "hitsSince (recordHit enemy ?ex) ?e'"
  note ih = sparked.IH[unfolded Let_def]
  have ih1: "hitByExplosionIds ?e' = hitByExplosionIds enemy @ ex_id ?ex # ?new"
    using ih by simp
  have ih2: "distinct ?new" using ih by blast
  have ih3: "set ?new \<inter> set (hitByExplosionIds enemy @ [ex_id ?ex]) = {}"
    using ih by simp
  have ih4: "health ?e' = health enemy - 1 - int (length ?new)" using ih by simp
  have ih5: "?e'\<lparr>hitByExplosionIds := hitByExplosionIds enemy, health := health enemy\<rparr> = enemy"
  proof -
    from ih have "?e'\<lparr>hitByExplosionIds := hitByExplosionIds (recordHit enemy ?ex),
                      health := health (recordHit enemy ?ex)\<rparr> = recordHit enemy ?ex"
      by blast
    then have "(?e'\<lparr>hitByExplosionIds := hitByExplosionIds (recordHit enemy ?ex),
                      health := health (recordHit enemy ?ex)\<rparr>)
                 \<lparr>hitByExplosionIds := hitByExplosionIds enemy, health := health enemy\<rparr>
               = (recordHit enemy ?ex)\<lparr>hitByExplosionIds := hitByExplosionIds enemy, health := health enemy\<rparr>"
      by (rule arg_cong)
    then show ?thesis by (simp add: recordHit_def)
  qed
  have ih6: "fst ?r \<longrightarrow> ?new \<noteq> [] \<and> health ?e' \<le> 0" using ih by blast
  have ih7: "\<not> fst ?r \<longrightarrow> ?new = [] \<or> 0 < health ?e'" using ih by blast
  have eq: "checkExplosions p now k enemy s = ?r"
    using sparked.hyps by (rule checkExplosions_spark)
  have new: "hitsSince enemy ?e' = ex_id ?ex # ?new"
    by (subst hitsSince_def, subst ih1) simp
  show ?case
    unfolding Let_def eq new
  proof (intro conjI)
    show "hitByExplosionIds ?e' = hitByExplosionIds enemy @ ex_id ?ex # ?new"
      by (rule ih1)
    show "distinct (ex_id ?ex # ?new)" using ih2 ih3 by auto
    show "set (ex_id ?ex # ?new) \<inter> set (hitByExplosionIds enemy) = {}"
      using ih3 sparked.hyps(3) by auto
    show "health ?e' = health enemy - int (length (ex_id ?ex # ?new))"
      using ih4 by simp
    show "?e'\<lparr>hitByExplosionIds := hitByExplosionIds enemy, health := health enemy\<rparr> = enemy"
      by (rule ih5)
    show "fst ?r \<longrightarrow> ex_id ?ex # ?new \<noteq> [] \<and> health ?e' \<le> 0" using ih6 by simp
    show "\<not> fst ?r \<longrightarrow> ex_id ?ex # ?new = [] \<or> 0 < health ?e'"
      using ih7 ih4 sparked.hyps(4) by auto
  qed
qed


lemma checkExplosions_grows:
  "\<exists>more. explosions (snd (snd (checkExplosions p now k enemy s))) = explosions s @ more"
proof (induction p now k enemy s rule: checkExplosions_cases)
  case (finished p now k enemy s)
  then show ?case by (simp add: checkExplosions_done)
next
  case (missed p now k enemy s)
  then show ?case by (simp add: checkExplosions_miss)
next
  case (killed p now k enemy s)
  then show ?case by (simp add: checkExplosions_kill explodeAt_explosions)
next
  case (sparked p now k enemy s)
  then show ?case by (auto simp add: checkExplosions_spark explodeAtRnd_explosions)
qed

lemma checkExplosions_nth:
  assumes "j < length (explosions s)"
  shows "j < length (explosions (snd (snd (checkExplosions p now k enemy s))))
         \<and> explosions (snd (snd (checkExplosions p now k enemy s))) ! j = explosions s ! j"
proof -
  obtain more where "explosions (snd (snd (checkExplosions p now k enemy s))) = explosions s @ more"
    using checkExplosions_grows by blast
  with assms show ?thesis by (simp add: nth_append)
qed

lemma checkExplosions_keeps_ids:
  "set (hitByExplosionIds enemy) \<subseteq> set (hitByExplosionIds (fst (snd (checkExplosions p now k enemy s))))"
proof -
  have "hitByExplosionIds (fst (snd (checkExplosions p now k enemy s)))
          = hitByExplosionIds enemy @ hitsSince enemy (fst (snd (checkExplosions p now k enemy s)))"
    using checkExplosions_record[of p now k enemy s] by (simp add: Let_def)
  then show ?thesis by (metis set_append sup_ge1)
qed

lemma checkExplosions_records_overlaps:
  "\<not> fst (checkExplosions p now k enemy s) \<Longrightarrow>
   k \<le> j \<Longrightarrow> j < length (explosions (snd (snd (checkExplosions p now k enemy s)))) \<Longrightarrow>
   overlaps enemy (explosions (snd (snd (checkExplosions p now k enemy s))) ! j) \<Longrightarrow>
   ex_id (explosions (snd (snd (checkExplosions p now k enemy s))) ! j)
     \<in> set (hitByExplosionIds (fst (snd (checkExplosions p now k enemy s))))"
proof (induction p now k enemy s rule: checkExplosions_cases)
  case (finished p now k enemy s)
  then show ?case by (simp add: checkExplosions_done)
next
  case (missed p now k enemy s)
  let ?r = "checkExplosions p now (Suc k) enemy s"
  have eq: "checkExplosions p now k enemy s = ?r"
    using missed.hyps by (rule checkExplosions_miss)
  show ?case
  proof (cases "j = k")
    case True
    have "explosions (snd (snd ?r)) ! k = explosions s ! k"
      using checkExplosions_nth[OF missed.hyps(1)] by blast
    with missed.prems(4) True eq have "overlaps enemy (explosions s ! k)" by simp
    with missed.hyps(2) have "ex_id (explosions s ! k) \<in> set (hitByExplosionIds enemy)" by blast
    then have "ex_id (explosions s ! k) \<in> set (hitByExplosionIds (fst (snd ?r)))"
      using checkExplosions_keeps_ids by blast
    then show ?thesis using True eq \<open>explosions (snd (snd ?r)) ! k = explosions s ! k\<close> by simp
  next
    case False
    with missed.prems have "Suc k \<le> j" by simp
    with missed.IH missed.prems show ?thesis unfolding eq by blast
  qed
next
  case (killed p now k enemy s)
  then show ?case by (simp add: checkExplosions_kill)
next
  case (sparked p now k enemy s)
  let ?ex = "explosions s ! k"
  let ?s1 = "explodeAtRnd (e_x enemy) (e_y enemy) 2 10 s"
  let ?r = "checkExplosions p now (Suc k) (recordHit enemy ?ex) ?s1"
  have eq: "checkExplosions p now k enemy s = ?r"
    using sparked.hyps by (rule checkExplosions_spark)
  show ?case
  proof (cases "j = k")
    case True
    have k1: "k < length (explosions ?s1)" using sparked.hyps(1) by (simp add: explodeAtRnd_explosions)
    have "explosions (snd (snd ?r)) ! k = explosions ?s1 ! k"
      using checkExplosions_nth[OF k1] by blast
    also have "\<dots> = ?ex" using sparked.hyps(1) by (simp add: explodeAtRnd_explosions nth_append)
    finally have nth: "explosions (snd (snd ?r)) ! k = ?ex" .
    have "ex_id ?ex \<in> set (hitByExplosionIds (recordHit enemy ?ex))" by simp
    then have "ex_id ?ex \<in> set (hitByExplosionIds (fst (snd ?r)))"
      using checkExplosions_keeps_ids by blast
    then show ?thesis using True eq nth by simp
  next
    case False
    with sparked.prems have "Suc k \<le> j" by simp
    with sparked.IH sparked.prems show ?thesis unfolding eq by simp
  qed
qed

lemma checkExplosions_already_recorded:
  "(\<And>j. k \<le> j \<Longrightarrow> j < length (explosions s) \<Longrightarrow> overlaps enemy (explosions s ! j) \<Longrightarrow>
       ex_id (explosions s ! j) \<in> set (hitByExplosionIds enemy)) \<Longrightarrow>
   checkExplosions p now k enemy s = (False, enemy, s)"
proof (induction p now k enemy s rule: checkExplosions_cases)
  case (finished p now k enemy s)
  then show ?case by (simp add: checkExplosions_done)
next
  case (missed p now k enemy s)
  have "checkExplosions p now (Suc k) enemy s = (False, enemy, s)"
    by (rule missed.IH) (simp add: missed.prems)
  then show ?case using missed.hyps by (simp add: checkExplosions_miss)
next
  case (killed p now k enemy s)
  from killed.prems[of k] killed.hyps show ?case by simp
next
  case (sparked p now k enemy s)
  from sparked.prems[of k] sparked.hyps show ?case by simp
qed

lemma checkExplosions_kills:
  "enemiesDestroyed (snd (snd (checkExplosions p now k enemy s)))
     = enemiesDestroyed s + (if fst (checkExplosions p now k enemy s) then 1 else 0)"
proof (induction p now k enemy s rule: checkExplosions_cases)
  case (finished p now k enemy s)
  then show ?case by (simp add: checkExplosions_done)
next
  case (missed p now k enemy s)
  then show ?case by (simp add: checkExplosions_miss)
next
  case (killed p now k enemy s)
  then show ?case by (simp add: checkExplosions_kill)
next
  case (sparked p now k enemy s)
  then show ?case by (simp add: checkExplosions_spark)
qed



lemma checkExplosions_damages:
  assumes "k < length (explosions s)"
    and "overlaps enemy (explosions s ! k)"
    and "ex_id (explosions s ! k) \<notin> set (hitByExplosionIds enemy)"
  shows "health (fst (snd (checkExplosions p now k enemy s))) < health enemy"
proof (cases "health enemy \<le> 1")
  case True
  with assms show ?thesis by (simp add: checkExplosions_kill)
next
  case False
  let ?e1 = "recordHit enemy (explosions s ! k)"
  let ?r = "checkExplosions p now (Suc k) ?e1 (explodeAtRnd (e_x enemy) (e_y enemy) 2 10 s)"
  have "health (fst (snd ?r)) = health ?e1 - int (length (hitsSince ?e1 (fst (snd ?r))))"
    using checkExplosions_record[of p now "Suc k" ?e1 "explodeAtRnd (e_x enemy) (e_y enemy) 2 10 s"]
    by (simp add: Let_def)
  then have "health (fst (snd ?r)) < health enemy" by simp
  with assms False show ?thesis by (simp add: checkExplosions_spark)
qed

lemma updateExplosions_explosions:
  "i \<le> length (explosions s) \<Longrightarrow>
   explosions (updateExplosions deltaTime i s) =
     List.map_filter (updateExplosion deltaTime) (take i (explosions s)) @ drop i (explosions s)"
proof (induction i arbitrary: s)
  case 0
  then show ?case by (simp add: List.map_filter_simps)
next
  case (Suc i)
  let ?xs = "explosions s"
  let ?s1 = "explosionStep deltaTime i s"
  from Suc.prems have i: "i < length ?xs" by simp
  have tk: "take i (explosions ?s1) = take i ?xs"
    using i by (simp add: explosionStep_def removeAt_def split: option.splits)
  have dr: "drop i (explosions ?s1) =
              (case updateExplosion deltaTime (?xs ! i) of None \<Rightarrow> [] | Some ex \<Rightarrow> [ex])
              @ drop (Suc i) ?xs"
    using i by (simp add: explosionStep_def removeAt_def drop_update_swap
        Cons_nth_drop_Suc[symmetric] split: option.splits)
  have len: "i \<le> length (explosions ?s1)"
    using i by (auto simp add: explosionStep_def removeAt_def split: option.splits)
  have "explosions (updateExplosions deltaTime (Suc i) s) = explosions (updateExplosions deltaTime i ?s1)"
    by simp
  also have "\<dots> = List.map_filter (updateExplosion deltaTime) (take i (explosions ?s1))
                     @ drop i (explosions ?s1)"
    by (rule Suc.IH[OF len])
  also have "\<dots> = List.map_filter (updateExplosion deltaTime) (take (Suc i) ?xs) @ drop (Suc i) ?xs"
    using i unfolding tk dr
    by (simp add: take_Suc_conv_app_nth List.map_filter_def split: option.splits)
  finally show ?case .
qed

lemma updateExplosions_frame:
  "updateExplosions deltaTime i s = s\<lparr>explosions := explosions (updateExplosions deltaTime i s)\<rparr>"
proof (induction i arbitrary: s)
  case 0
  then show ?case by simp
next
  case (Suc i)
  have "explosionStep deltaTime i s = s\<lparr>explosions := explosions (explosionStep deltaTime i s)\<rparr>"
    by (simp add: explosionStep_def split: option.splits)
  then show ?case using Suc.IH[of "explosionStep deltaTime i s"]
    by (metis (no_types, lifting) game.surjective game.update_convs(4) updateExplosions.simps(2))
qed

subsection \<open>Spawner\<close>

lemma mathRandom_state: "snd (mathRandom s) = s\<lparr>randomPos := Suc (randomPos s)\<rparr>"
  by (simp add: mathRandom_def)

lemma dateNow_state: "snd (dateNow s) = s\<lparr>clockPos := Suc (clockPos s)\<rparr>"
  by (simp add: dateNow_def)

lemma getEnemyConfig_state:
  "\<exists>n. snd (getEnemyConfig lv d s) = s\<lparr>randomPos := n\<rparr>"
  by (auto simp add: getEnemyConfig_def mathRandom_def Let_def split: prod.splits)

lemma baseRate_bounds: "0.4 \<le> baseRate lv" "lv \<le> lv' \<Longrightarrow> baseRate lv' \<le> baseRate lv"
  by (simp_all add: baseRate_def)

lemma spawnRate_floor: "0.28 \<le> spawnRate p"
proof -
  have "0.4 \<le> baseRate (level p)" by (rule baseRate_bounds)
  moreover have "0.7 \<le> rateMod (difficulty p)" by (simp add: rateMod_def)
  ultimately have "0.4 * 0.7 \<le> baseRate (level p) * rateMod (difficulty p)"
    by (intro mult_mono) simp_all
  then show ?thesis by (simp add: spawnRate_def)
qed

lemma scheduleNextSpawn_eq:
  "scheduleNextSpawn p s =
     s\<lparr>randomPos := Suc (randomPos s),
       nextSpawnTime := levelTime s + frac (randoms s (randomPos s)) * spawnRate p,
       warningPlayed := False\<rparr>"
  by (simp add: scheduleNextSpawn_def mathRandom_def)

lemma spawnEnemies_spawns:
  assumes "levelTime s > nextSpawnTime s" and "filter (\<lambda>b. \<not> isDestroyed b) (buildings s) \<noteq> []"
  shows "\<exists>r. 0 \<le> r \<and> r < 1
           \<and> nextSpawnTime (spawnEnemies p width height s) = levelTime s + r * spawnRate p
           \<and> levelTime (spawnEnemies p width height s) = levelTime s
           \<and> length (enemies (spawnEnemies p width height s)) = Suc (length (enemies s))
           \<and> \<not> warningPlayed (spawnEnemies p width height s)"
proof -
  obtain r1 s1 where 1: "mathRandom s = (r1, s1)" by force
  obtain r2 s2 where 2: "mathRandom s1 = (r2, s2)" by force
  obtain ty sm col s3 where 3: "getEnemyConfig (level p) (difficulty p) s2 = ((ty, sm, col), s3)"
    by (metis prod_cases3 surj_pair)
  obtain t s4 where 4: "dateNow s3 = (t, s4)" by force
  obtain r3 s5 where 5: "mathRandom s4 = (r3, s5)" by force
  obtain r4 s6 where 6: "mathRandom s5 = (r4, s6)" by force
  obtain n where n: "s3 = s2\<lparr>randomPos := n\<rparr>"
    using getEnemyConfig_state[of "level p" "difficulty p" s2] 3 by auto
  have s1: "s1 = s\<lparr>randomPos := Suc (randomPos s)\<rparr>" using 1 mathRandom_state[of s] by simp
  have s2: "s2 = s1\<lparr>randomPos := Suc (randomPos s1)\<rparr>" using 2 mathRandom_state[of s1] by simp
  have s4: "s4 = s3\<lparr>clockPos := Suc (clockPos s3)\<rparr>" using 4 dateNow_state[of s3] by simp
  have s5: "s5 = s4\<lparr>randomPos := Suc (randomPos s4)\<rparr>" using 5 mathRandom_state[of s4] by simp
  have s6: "s6 = s5\<lparr>randomPos := Suc (randomPos s5)\<rparr>" using 6 mathRandom_state[of s5] by simp
  have fr: "enemies s6 = enemies s" "levelTime s6 = levelTime s"
    by (simp_all add: s1 s2 n s4 s5 s6)
  let ?r = "frac (randoms s6 (randomPos s6))"
  have "0 \<le> ?r" "?r < 1" by (simp_all add: frac_lt_1)
  moreover have "nextSpawnTime (spawnEnemies p width height s) = levelTime s + ?r * spawnRate p"
    and "levelTime (spawnEnemies p width height s) = levelTime s"
    and "length (enemies (spawnEnemies p width height s)) = Suc (length (enemies s))"
    and "\<not> warningPlayed (spawnEnemies p width height s)"
    using assms fr
    by (simp_all add: spawnEnemies_def Let_def 1 2 3 4 5 6 scheduleNextSpawn_eq)
  ultimately show ?thesis by blast
qed

subsection \<open>Buildings and shield over a tick\<close>

lemma onlyFall_refl [simp]: "onlyFall bs bs"
  by (simp add: onlyFall_def list_all2_refl)

lemma onlyFall_trans:
  assumes "onlyFall bs bs'" and "onlyFall bs' bs''"
  shows "onlyFall bs bs''"
  using assms unfolding onlyFall_def
  by (rule list_all2_trans[rotated]) auto

lemma onlyFall_length: "onlyFall bs bs' \<Longrightarrow> length bs' = length bs"
  by (simp add: onlyFall_def list_all2_lengthD)

lemma onlyFall_nth:
  "onlyFall bs bs' \<Longrightarrow> k < length bs \<Longrightarrow> isDestroyed (bs ! k) \<Longrightarrow> isDestroyed (bs' ! k)"
  by (auto simp add: onlyFall_def list_all2_conv_all_nth)

lemma onlyFall_update:
  "k < length bs \<Longrightarrow> onlyFall bs (bs[k := (bs ! k)\<lparr>isDestroyed := True\<rparr>])"
  by (auto simp add: onlyFall_def list_all2_conv_all_nth nth_list_update)

subsection \<open>What the sections of a tick leave alone\<close>

lemma comboTimeoutCheck_frame [simp]:
  "buildings (comboTimeoutCheck now s) = buildings s"
  "shieldEnergy (comboTimeoutCheck now s) = shieldEnergy s"
  "enemies (comboTimeoutCheck now s) = enemies s"
  by (simp_all add: comboTimeoutCheck_def Let_def)

lemma advanceLevelTimer_frame [simp]:
  "buildings (snd (advanceLevelTimer dt s)) = buildings s"
  "shieldEnergy (snd (advanceLevelTimer dt s)) = shieldEnergy s"
  by (simp_all add: advanceLevelTimer_def Let_def)

lemma audioWarning_frame [simp]:
  "buildings (audioWarning s) = buildings s"
  "shieldEnergy (audioWarning s) = shieldEnergy s"
  by (simp_all add: audioWarning_def Let_def)

lemma getEnemyConfig_frame [simp]:
  "buildings (snd (getEnemyConfig lv d s)) = buildings s"
  "shieldEnergy (snd (getEnemyConfig lv d s)) = shieldEnergy s"
  using getEnemyConfig_state[of lv d s] by auto

lemma spawnEnemies_frame [simp]:
  "buildings (spawnEnemies p width height s) = buildings s"
  "shieldEnergy (spawnEnemies p width height s) = shieldEnergy s"
  by (simp_all add: spawnEnemies_def Let_def case_prod_beta scheduleNextSpawn_eq
      mathRandom_def dateNow_def)

lemma autoTurret_frame [simp]:
  "buildings (autoTurret p now height s) = buildings s"
  "shieldEnergy (autoTurret p now height s) = shieldEnergy s"
  by (simp_all add: autoTurret_def Let_def case_prod_beta mathRandom_def split: option.splits)

lemma projectileStep_frame [simp]:
  "buildings (projectileStep p now dt width i s) = buildings s"
  "shieldEnergy (projectileStep p now dt width i s) = shieldEnergy s"
  by (simp_all add: projectileStep_def projectileHit_def Let_def split: option.splits)

lemma moveProjectiles_frame [simp]:
  "buildings (moveProjectiles p now dt width n s) = buildings s"
  "shieldEnergy (moveProjectiles p now dt width n s) = shieldEnergy s"
  by (induction n arbitrary: s) simp_all

lemma interceptorStep_frame [simp]:
  "buildings (interceptorStep p dt i s) = buildings s"
  "shieldEnergy (interceptorStep p dt i s) = shieldEnergy s"
  by (simp_all add: interceptorStep_def Let_def)

lemma moveInterceptors_frame [simp]:
  "buildings (moveInterceptors p dt n s) = buildings s"
  "shieldEnergy (moveInterceptors p dt n s) = shieldEnergy s"
  by (induction n arbitrary: s) simp_all

lemma updateExplosions_fields [simp]:
  "buildings (updateExplosions dt n s) = buildings s"
  "shieldEnergy (updateExplosions dt n s) = shieldEnergy s"
  "enemies (updateExplosions dt n s) = enemies s"
  by (subst updateExplosions_frame, simp)+

lemma checkExplosions_frame [simp]:
  "buildings (snd (snd (checkExplosions p now k enemy s))) = buildings s
   \<and> shieldEnergy (snd (snd (checkExplosions p now k enemy s))) = shieldEnergy s
   \<and> enemies (snd (snd (checkExplosions p now k enemy s))) = enemies s"
proof (induction p now k enemy s rule: checkExplosions_cases)
  case (finished p now k enemy s)
  then show ?case by (simp add: checkExplosions_done)
next
  case (missed p now k enemy s)
  then show ?case by (simp add: checkExplosions_miss)
next
  case (killed p now k enemy s)
  then show ?case by (simp add: checkExplosions_kill)
next
  case (sparked p now k enemy s)
  then show ?case by (simp add: checkExplosions_spark)
qed

lemma shieldAbsorb_fields:
  "shieldEnergy (shieldAbsorb p now i enemy s) = max 0 (shieldEnergy s - 30)"
  "buildings (shieldAbsorb p now i enemy s) = buildings s"
  "enemies (shieldAbsorb p now i enemy s) = removeAt i (enemies s)"
  "enemiesDestroyed (shieldAbsorb p now i enemy s) = Suc (enemiesDestroyed s)"
  by (simp_all add: shieldAbsorb_def Let_def case_prod_beta dateNow_def damageShield_def)

lemma impactBuilding_fold:
  "\<forall>k \<in> set ks. k < length (buildings (snd acc)) \<Longrightarrow>
   onlyFall (buildings (snd acc)) (buildings (snd (foldl (impactBuilding height enemy) acc ks)))
   \<and> shieldEnergy (snd (foldl (impactBuilding height enemy) acc ks)) = shieldEnergy (snd acc)
   \<and> enemies (snd (foldl (impactBuilding height enemy) acc ks)) = enemies (snd acc)"
proof (induction ks arbitrary: acc)
  case Nil
  then show ?case by simp
next
  case (Cons k ks)
  let ?a = "impactBuilding height enemy acc k"
  from Cons.prems have k: "k < length (buildings (snd acc))" by simp
  have step: "onlyFall (buildings (snd acc)) (buildings (snd ?a))"
    "shieldEnergy (snd ?a) = shieldEnergy (snd acc)" "enemies (snd ?a) = enemies (snd acc)"
    using k by (simp_all add: impactBuilding_def Let_def case_prod_beta breakCombo_def onlyFall_update)
  then have "length (buildings (snd ?a)) = length (buildings (snd acc))"
    by (simp add: onlyFall_length)
  with Cons.prems have "\<forall>k \<in> set ks. k < length (buildings (snd ?a))" by simp
  from Cons.IH[OF this] step show ?case by (auto intro: onlyFall_trans)
qed

lemma groundImpact_fields:
  "onlyFall (buildings s) (buildings (snd (groundImpact height i enemy s)))"
  "shieldEnergy (snd (groundImpact height i enemy s)) = shieldEnergy s"
  "fst (groundImpact height i enemy s)
     = list_all isDestroyed (buildings (snd (groundImpact height i enemy s)))"
  using impactBuilding_fold[of "[0..<length (buildings s)]" "(False, s)" height enemy]
  by (simp_all add: groundImpact_def Let_def case_prod_beta)

lemma enemyStep_fields:
  "onlyFall (buildings s) (buildings (snd (enemyStep p now dt width height i s)))"
  "shieldEnergy (snd (enemyStep p now dt width height i s)) \<le> shieldEnergy s"
  "0 \<le> shieldEnergy s \<Longrightarrow> 0 \<le> shieldEnergy (snd (enemyStep p now dt width height i s))"
  "\<not> list_all isDestroyed (buildings s) \<Longrightarrow>
     fst (enemyStep p now dt width height i s)
       = list_all isDestroyed (buildings (snd (enemyStep p now dt width height i s)))"
proof -
  let ?t = "fst (moveEnemy dt (enemies s ! i))"
  let ?e = "snd (moveEnemy dt (enemies s ! i))"
  let ?c = "checkExplosions p now 0 ?e s"
  let ?e1 = "fst (snd ?c)"
  let ?s1 = "snd (snd ?c)"
  let ?g = "groundImpact height i ?e1 ?s1"
  let ?r = "enemyStep p now dt width height i s"
  have s1: "buildings ?s1 = buildings s" "shieldEnergy ?s1 = shieldEnergy s" by simp_all
  have g: "onlyFall (buildings s) (buildings (snd ?g))" "shieldEnergy (snd ?g) = shieldEnergy s"
    "fst ?g = list_all isDestroyed (buildings (snd ?g))"
    using groundImpact_fields[where s = ?s1 and height = height and i = i and enemy = ?e1] s1
    by simp_all
  consider (shield) "shieldBlocks p width height ?e s"
    | (destroyed) "\<not> shieldBlocks p width height ?e s" "fst ?c"
    | (ground) "\<not> shieldBlocks p width height ?e s" "\<not> fst ?c"
               "?t \<ge> 1 \<or> e_y ?e1 \<ge> height - 40"
    | (flying) "\<not> shieldBlocks p width height ?e s" "\<not> fst ?c"
               "\<not> (?t \<ge> 1 \<or> e_y ?e1 \<ge> height - 40)"
    by blast
  then have "onlyFall (buildings s) (buildings (snd ?r))
     \<and> shieldEnergy (snd ?r) \<le> shieldEnergy s
     \<and> (0 \<le> shieldEnergy s \<longrightarrow> 0 \<le> shieldEnergy (snd ?r))
     \<and> (\<not> list_all isDestroyed (buildings s) \<longrightarrow>
           fst ?r = list_all isDestroyed (buildings (snd ?r)))"
  proof cases
    case shield
    then have "?r = (False, shieldAbsorb p now i ?e s)"
      by (simp add: enemyStep_def case_prod_beta)
    moreover from shield have "0 < shieldEnergy s" by (simp add: shieldBlocks_def)
    ultimately show ?thesis by (simp add: shieldAbsorb_fields)
  next
    case destroyed
    then have "?r = (False, ?s1\<lparr>enemies := removeAt i (enemies ?s1)\<rparr>)"
      by (simp add: enemyStep_def case_prod_beta)
    then show ?thesis by simp
  next
    case ground
    then have "?r = ?g" by (simp add: enemyStep_def case_prod_beta)
    with g show ?thesis by simp
  next
    case flying
    then have "?r = (False, ?s1\<lparr>enemies := (enemies ?s1)[i := ?e1]\<rparr>)"
      by (simp add: enemyStep_def case_prod_beta)
    then show ?thesis by simp
  qed
  then show "onlyFall (buildings s) (buildings (snd ?r))"
    and "shieldEnergy (snd ?r) \<le> shieldEnergy s"
    and "0 \<le> shieldEnergy s \<Longrightarrow> 0 \<le> shieldEnergy (snd ?r)"
    and "\<not> list_all isDestroyed (buildings s) \<Longrightarrow>
           fst ?r = list_all isDestroyed (buildings (snd ?r))"
    by blast+
qed

lemma shieldHitTime_frame [simp]:
  "shieldHitTime (handleKill p now e s) = shieldHitTime s"
  "shieldHitTime (explodeAt ax ay r0 rmax s) = shieldHitTime s"
  "shieldHitTime (explodeAtRnd ax ay r0 rmax s) = shieldHitTime s"
  "shieldHitTime (breakCombo s) = shieldHitTime s"
  by (simp_all add: handleKill_def Let_def explodeAt_def explodeAtRnd_def dateNow_def
      mathRandom_def pushExplosion_def breakCombo_def)

lemma checkExplosions_hitTime [simp]:
  "shieldHitTime (snd (snd (checkExplosions p now k enemy s))) = shieldHitTime s"
proof (induction p now k enemy s rule: checkExplosions_cases)
  case (finished p now k enemy s)
  then show ?case by (simp add: checkExplosions_done)
next
  case (missed p now k enemy s)
  then show ?case by (simp add: checkExplosions_miss)
next
  case (killed p now k enemy s)
  then show ?case by (simp add: checkExplosions_kill)
next
  case (sparked p now k enemy s)
  then show ?case by (simp add: checkExplosions_spark)
qed

lemma impactBuilding_hitTime:
  "shieldHitTime (snd (foldl (impactBuilding height enemy) acc ks)) = shieldHitTime (snd acc)"
proof (induction ks arbitrary: acc)
  case Nil
  then show ?case by simp
next
  case (Cons k ks)
  have "shieldHitTime (snd (impactBuilding height enemy acc k)) = shieldHitTime (snd acc)"
    by (simp add: impactBuilding_def Let_def case_prod_beta)
  with Cons.IH[of "impactBuilding height enemy acc k"] show ?case by simp
qed

lemma groundImpact_hitTime:
  "shieldHitTime (snd (groundImpact height i enemy s)) = shieldHitTime s"
  using impactBuilding_hitTime[of height enemy "(False, s)" "[0..<length (buildings s)]"]
  by (simp add: groundImpact_def Let_def case_prod_beta)

text \<open>The body for an enemy that the shield does not block: the shield is left alone.\<close>

lemma enemyStep_unshielded:
  assumes "\<not> shieldBlocks p width height (snd (moveEnemy dt (enemies s ! i))) s"
  shows "enemyStep p now dt width height i s
           = (let (t, enemy) = moveEnemy dt (enemies s ! i);
                  (destroyed, enemy1, s1) = checkExplosions p now 0 enemy s
              in if destroyed then (False, s1\<lparr>enemies := removeAt i (enemies s1)\<rparr>)
                 else if t \<ge> 1 \<or> e_y enemy1 \<ge> height - 40
                 then groundImpact height i enemy1 s1
                 else (False, s1\<lparr>enemies := (enemies s1)[i := enemy1]\<rparr>))"
    and "shieldEnergy (snd (enemyStep p now dt width height i s)) = shieldEnergy s"
    and "shieldHitTime (snd (enemyStep p now dt width height i s)) = shieldHitTime s"
proof -
  show eq: "enemyStep p now dt width height i s
           = (let (t, enemy) = moveEnemy dt (enemies s ! i);
                  (destroyed, enemy1, s1) = checkExplosions p now 0 enemy s
              in if destroyed then (False, s1\<lparr>enemies := removeAt i (enemies s1)\<rparr>)
                 else if t \<ge> 1 \<or> e_y enemy1 \<ge> height - 40
                 then groundImpact height i enemy1 s1
                 else (False, s1\<lparr>enemies := (enemies s1)[i := enemy1]\<rparr>))"
    using assms by (simp add: enemyStep_def case_prod_beta)
  show "shieldEnergy (snd (enemyStep p now dt width height i s)) = shieldEnergy s"
    unfolding eq by (simp add: Let_def case_prod_beta groundImpact_fields)
  show "shieldHitTime (snd (enemyStep p now dt width height i s)) = shieldHitTime s"
    unfolding eq by (simp add: Let_def case_prod_beta groundImpact_hitTime)
qed

lemma moveEnemies_fields:
  "onlyFall (buildings s) (buildings (snd (moveEnemies p now dt width height n s)))
   \<and> shieldEnergy (snd (moveEnemies p now dt width height n s)) \<le> shieldEnergy s
   \<and> (0 \<le> shieldEnergy s \<longrightarrow> 0 \<le> shieldEnergy (snd (moveEnemies p now dt width height n s)))
   \<and> (\<not> list_all isDestroyed (buildings s) \<longrightarrow>
        fst (moveEnemies p now dt width height n s)
          = list_all isDestroyed (buildings (snd (moveEnemies p now dt width height n s))))"
proof (induction n arbitrary: s)
  case 0
  then show ?case by simp
next
  case (Suc n)
  let ?r = "enemyStep p now dt width height n s"
  note st = enemyStep_fields[where s = s and p = p and now = now and dt = dt
      and width = width and height = height and i = n]
  show ?case
  proof (cases "fst ?r")
    case True
    then have "moveEnemies p now dt width height (Suc n) s = (True, snd ?r)"
      by (simp add: case_prod_beta split: bool.splits)
    with st True show ?thesis by auto
  next
    case False
    then have eq: "moveEnemies p now dt width height (Suc n) s
                     = moveEnemies p now dt width height n (snd ?r)"
      by (simp add: case_prod_beta split: bool.splits)
    from False st(4) have alive: "\<not> list_all isDestroyed (buildings s)
                                  \<longrightarrow> \<not> list_all isDestroyed (buildings (snd ?r))" by auto
    from Suc.IH[of "snd ?r"] st alive show ?thesis
      unfolding eq by (auto intro: onlyFall_trans)
  qed
qed


lemma gameplay_fields:
  "onlyFall (buildings s) (buildings (snd (gameplay p now dt width height s)))
   \<and> shieldEnergy (snd (gameplay p now dt width height s)) \<le> shieldEnergy s
   \<and> (0 \<le> shieldEnergy s \<longrightarrow> 0 \<le> shieldEnergy (snd (gameplay p now dt width height s)))
   \<and> (\<not> list_all isDestroyed (buildings s) \<longrightarrow>
        (fst (gameplay p now dt width height s) = GameOver (renderedScore p))
          = list_all isDestroyed (buildings (snd (gameplay p now dt width height s))))
   \<and> (\<forall>sc. fst (gameplay p now dt width height s) = GameOver sc \<longrightarrow> sc = renderedScore p)"
proof -
  let ?s2 = "snd (advanceLevelTimer dt (comboTimeoutCheck now s))"
  let ?tl = "fst (advanceLevelTimer dt (comboTimeoutCheck now s))"
  let ?s5 = "autoTurret p now height (spawnEnemies p width height (audioWarning ?s2))"
  let ?s6 = "moveProjectiles p now dt width (length (projectiles ?s5)) ?s5"
  let ?s7 = "moveInterceptors p dt (length (interceptors ?s6)) ?s6"
  let ?s8 = "updateExplosions dt (length (explosions ?s7)) ?s7"
  let ?m = "moveEnemies p now dt width height (length (enemies ?s8)) ?s8"
  have s8: "buildings ?s8 = buildings s" "shieldEnergy ?s8 = shieldEnergy s" by simp_all
  note m = moveEnemies_fields[where s = ?s8 and p = p and now = now and dt = dt
      and width = width and height = height and n = "length (enemies ?s8)", unfolded s8]
  show ?thesis
  proof (cases "?tl \<le> 0")
    case True
    then have "gameplay p now dt width height s
               = (LevelComplete (buildingsLostInLevel ?s2) (enemiesDestroyed ?s2), ?s2)"
      by (simp add: gameplay_def Let_def case_prod_beta)
    then show ?thesis by simp
  next
    case False
    then have "gameplay p now dt width height s
               = (if fst ?m then GameOver (renderedScore p) else NextFrame, snd ?m)"
      by (simp add: gameplay_def Let_def case_prod_beta)
    with m show ?thesis by auto
  qed
qed

lemma update_fields:
  "onlyFall (buildings s) (buildings (snd (update p time s)))
   \<and> shieldEnergy (snd (update p time s)) \<le> shieldEnergy s
   \<and> (0 \<le> shieldEnergy s \<longrightarrow> 0 \<le> shieldEnergy (snd (update p time s)))
   \<and> (\<not> list_all isDestroyed (buildings s) \<longrightarrow>
        (fst (update p time s) = GameOver (renderedScore p))
          = list_all isDestroyed (buildings (snd (update p time s))))
   \<and> (\<forall>sc. fst (update p time s) = GameOver sc \<longrightarrow> sc = renderedScore p \<and> gameState p = PLAYING)"
proof -
  let ?s2 = "s\<lparr>lastTime := time, clockPos := Suc (clockPos s)\<rparr>"
  let ?now = "clock s (clockPos s)"
  let ?dt = "(time - lastTime s) / 1000"
  consider (idle) "gameState p \<noteq> PLAYING \<and> gameState p \<noteq> GAME_OVER"
    | (stalled) "gameState p = PLAYING \<or> gameState p = GAME_OVER" "?dt > 0.1"
    | (nocanvas) "gameState p = PLAYING \<or> gameState p = GAME_OVER" "\<not> ?dt > 0.1" "canvas p = None"
    | (over) width height where "gameState p = GAME_OVER" "\<not> ?dt > 0.1"
        "canvas p = Some (width, height)"
    | (play) width height where "gameState p = PLAYING" "\<not> ?dt > 0.1"
        "canvas p = Some (width, height)"
    by (cases "canvas p") auto
  then show ?thesis
  proof cases
    case idle
    then show ?thesis by (simp add: update_def)
  next
    case stalled
    then have "update p time s = (Stalled, ?s2)"
      by (auto simp add: update_def dateNow_def Let_def)
    then show ?thesis by simp
  next
    case nocanvas
    then have "update p time s = (NoCanvas, ?s2)"
      by (auto simp add: update_def dateNow_def Let_def)
    then show ?thesis by simp
  next
    case over
    then have "update p time s
       = (GameOverAnimation, if gameOverStart ?s2 = 0 then ?s2\<lparr>gameOverStart := time\<rparr> else ?s2)"
      by (simp add: update_def dateNow_def Let_def)
    then show ?thesis by simp
  next
    case play
    then have "update p time s = gameplay p ?now ?dt width height ?s2"
      by (simp add: update_def dateNow_def Let_def)
    with gameplay_fields[of ?s2 p ?now ?dt width height] play(1) show ?thesis by simp
  qed
qed

subsection \<open>The combo multiplier over a tick\<close>

lemma handleKill_multiplier:
  "multiplier (handleKill p now e s)
     = (if now - lastKillTime s < COMBO_TIMEOUT then min (multiplier s + 1) 10 else 1)"
  "lastKillTime (handleKill p now e s) = now"
  "displayScore (handleKill p now e s)
     = displayScore s + \<lceil>baseScore (e_type e) * diffMult (difficulty p)
                          * of_int (multiplier (handleKill p now e s))\<rceil>"
  by (simp_all add: handleKill_def Let_def)

lemma comboTimeoutCheck_multiplier:
  "multiplier (comboTimeoutCheck now s)
     = (if multiplier s > 1 \<and> now - lastKillTime s > COMBO_TIMEOUT then 1 else multiplier s)"
  by (simp add: comboTimeoutCheck_def Let_def)

lemma comboInRange_steps [simp]:
  "comboInRange s \<Longrightarrow> comboInRange (handleKill p now e s)"
  "comboInRange s \<Longrightarrow> comboInRange (comboTimeoutCheck now s)"
  "comboInRange (breakCombo s)"
  "comboInRange (explodeAt ax ay r0 rmax s) = comboInRange s"
  "comboInRange (explodeAtRnd ax ay r0 rmax s) = comboInRange s"
  "comboInRange (snd (advanceLevelTimer dt s)) = comboInRange s"
  "comboInRange (audioWarning s) = comboInRange s"
  "comboInRange (spawnEnemies p width height s) = comboInRange s"
  "comboInRange (autoTurret p now height s) = comboInRange s"
  "comboInRange (interceptorStep p dt i s) = comboInRange s"
  "comboInRange (damageShield s) = comboInRange s"
  by (auto simp add: comboInRange_def handleKill_multiplier comboTimeoutCheck_multiplier
      breakCombo_def advanceLevelTimer_def audioWarning_def Let_def spawnEnemies_def
      case_prod_beta scheduleNextSpawn_eq mathRandom_def dateNow_def autoTurret_def
      interceptorStep_def damageShield_def getEnemyConfig_def
      split: option.splits)

lemma comboInRange_update [simp]:
  "comboInRange (s\<lparr>enemies := es\<rparr>) = comboInRange s"
  "comboInRange (s\<lparr>projectiles := ps\<rparr>) = comboInRange s"
  "comboInRange (s\<lparr>explosions := xs\<rparr>) = comboInRange s"
  "comboInRange (s\<lparr>buildings := bs\<rparr>) = comboInRange s"
  "comboInRange (s\<lparr>lastTime := t\<rparr>) = comboInRange s"
  "comboInRange (s\<lparr>clockPos := n\<rparr>) = comboInRange s"
  "comboInRange (s\<lparr>gameOverStart := t\<rparr>) = comboInRange s"
  "comboInRange (s\<lparr>shieldHitTime := t\<rparr>) = comboInRange s"
  by (simp_all add: comboInRange_def)

lemma comboInRange_projectiles:
  "comboInRange s \<Longrightarrow> comboInRange (moveProjectiles p now dt width n s)"
proof (induction n arbitrary: s)
  case 0
  then show ?case by simp
next
  case (Suc n)
  have "comboInRange (projectileStep p now dt width n s)"
    using Suc.prems
    by (simp add: projectileStep_def projectileHit_def Let_def split: option.splits)
  then show ?case using Suc.IH by simp
qed

lemma comboInRange_interceptors:
  "comboInRange s \<Longrightarrow> comboInRange (moveInterceptors p dt n s)"
  by (induction n arbitrary: s) simp_all

lemma comboInRange_explosions:
  "comboInRange (updateExplosions dt n s) = comboInRange s"
  by (subst updateExplosions_frame) simp

lemma comboInRange_check:
  "comboInRange s \<Longrightarrow> comboInRange (snd (snd (checkExplosions p now k enemy s)))"
proof (induction p now k enemy s rule: checkExplosions_cases)
  case (finished p now k enemy s)
  then show ?case by (simp add: checkExplosions_done)
next
  case (missed p now k enemy s)
  then show ?case by (simp add: checkExplosions_miss)
next
  case (killed p now k enemy s)
  then show ?case by (simp add: checkExplosions_kill)
next
  case (sparked p now k enemy s)
  then show ?case by (simp add: checkExplosions_spark)
qed

lemma comboInRange_impact:
  "comboInRange (snd acc) \<Longrightarrow>
   comboInRange (snd (foldl (impactBuilding height enemy) acc ks))"
proof (induction ks arbitrary: acc)
  case Nil
  then show ?case by simp
next
  case (Cons k ks)
  have "comboInRange (snd (impactBuilding height enemy acc k))"
    using Cons.prems by (simp add: impactBuilding_def Let_def case_prod_beta comboInRange_def breakCombo_def explodeAt_def dateNow_def pushExplosion_def)
  then show ?case using Cons.IH by simp
qed

lemma comboInRange_enemyStep:
  "comboInRange s \<Longrightarrow> comboInRange (snd (enemyStep p now dt width height i s))"
  using comboInRange_check[of s p now 0 "snd (moveEnemy dt (enemies s ! i))"]
        comboInRange_impact[of "(False, snd (snd (checkExplosions p now 0
            (snd (moveEnemy dt (enemies s ! i))) s)))" height]
  by (simp add: enemyStep_def Let_def case_prod_beta shieldAbsorb_def groundImpact_def dateNow_def)

lemma comboInRange_enemies:
  "comboInRange s \<Longrightarrow> comboInRange (snd (moveEnemies p now dt width height n s))"
proof (induction n arbitrary: s)
  case 0
  then show ?case by simp
next
  case (Suc n)
  from comboInRange_enemyStep[OF Suc.prems, of p now dt width height n] Suc.IH
  show ?case by (simp add: case_prod_beta split: bool.splits)
qed

lemma comboInRange_tick:
  "comboInRange s \<Longrightarrow> comboInRange (snd (update p time s))"
  by (simp add: update_def gameplay_def Let_def case_prod_beta dateNow_def
      comboInRange_projectiles comboInRange_interceptors comboInRange_explosions
      comboInRange_enemies split: option.splits)

subsection \<open>Accounting of the explosion check per explosion id\<close>

text \<open>
  One run of the check counts no explosion id twice: the ids it adds to the hit-set
  (\<open>new\<close>) are distinct and were not in it, the health drops by one point per added id,
  a surviving enemy has every overlapping explosion recorded, a run that finds only
  recorded explosions changes nothing, and the movement keeps hit-set and health.
\<close>

lemma moveEnemy_health:
  "health (snd (moveEnemy dt e)) = health e"
  "hitByExplosionIds (snd (moveEnemy dt e)) = hitByExplosionIds e"
  by (simp_all add: moveEnemy_def Let_def case_prod_beta)

lemma checkExplosions_accounting:
  "let r = checkExplosions p now 0 enemy s; destroyed = fst r; enemy' = fst (snd r);
       s' = snd (snd r); new = hitsSince enemy enemy'
   in hitByExplosionIds enemy' = hitByExplosionIds enemy @ new
      \<and> distinct new
      \<and> set new \<inter> set (hitByExplosionIds enemy) = {}
      \<and> health enemy' = health enemy - int (length new)
      \<and> (\<not> destroyed \<longrightarrow>
            (\<forall>ex \<in> set (explosions s'). overlaps enemy ex
                \<longrightarrow> ex_id ex \<in> set (hitByExplosionIds enemy')))
      \<and> (destroyed \<longrightarrow> new \<noteq> [] \<and> health enemy' \<le> 0)
      \<and> enemiesDestroyed s' = enemiesDestroyed s + (if destroyed then 1 else 0)
      \<and> ((\<forall>ex \<in> set (explosions s). overlaps enemy ex
              \<longrightarrow> ex_id ex \<in> set (hitByExplosionIds enemy))
           \<longrightarrow> r = (False, enemy, s))
      \<and> hitByExplosionIds (snd (moveEnemy deltaTime enemy)) = hitByExplosionIds enemy
      \<and> health (snd (moveEnemy deltaTime enemy)) = health enemy"
proof -
  let ?r = "checkExplosions p now 0 enemy s"
  let ?e' = "fst (snd ?r)"
  let ?s' = "snd (snd ?r)"
  note rec = checkExplosions_record[of p now 0 enemy s, unfolded Let_def]
  have seen: "\<forall>ex \<in> set (explosions ?s'). overlaps enemy ex
                \<longrightarrow> ex_id ex \<in> set (hitByExplosionIds ?e')" if "\<not> fst ?r"
  proof (intro ballI impI)
    fix ex assume "ex \<in> set (explosions ?s')" and ov: "overlaps enemy ex"
    then obtain j where j: "j < length (explosions ?s')" "explosions ?s' ! j = ex"
      by (auto simp: in_set_conv_nth)
    with that ov show "ex_id ex \<in> set (hitByExplosionIds ?e')"
      using checkExplosions_records_overlaps[of p now 0 enemy s j] by simp
  qed
  have again: "?r = (False, enemy, s)"
    if "\<forall>ex \<in> set (explosions s). overlaps enemy ex \<longrightarrow> ex_id ex \<in> set (hitByExplosionIds enemy)"
    using that by (intro checkExplosions_already_recorded) simp
  show ?thesis
    unfolding Let_def
    using rec seen again checkExplosions_kills[of p now 0 enemy s]
      moveEnemy_health[of deltaTime enemy]
    by blast
qed

subsection \<open>Distances on concrete inputs\<close>

lemma hypot_axis: "hypot a 0 = \<bar>a\<bar>" "hypot 0 b = \<bar>b\<bar>"
  by (simp_all add: hypot_def)

lemma hypot_scaled:
  assumes "0 < c"
  shows "hypot a b * c < d \<longleftrightarrow> 0 < d \<and> (a * a + b * b) * (c * c) < d * d"
proof -
  have "hypot a b * c < d \<longleftrightarrow> hypot a b < d / c"
    using assms by (simp add: pos_less_divide_eq)
  also have "\<dots> \<longleftrightarrow> 0 < d / c \<and> a * a + b * b < (d / c) * (d / c)"
    by (rule hypot_less_iff)
  also have "\<dots> \<longleftrightarrow> 0 < d \<and> (a * a + b * b) * (c * c) < d * d"
    using assms by (simp add: zero_less_divide_iff pos_less_divide_eq)
  finally show ?thesis .
qed

text \<open>Rewrite rules that evaluate the model on concrete inputs.\<close>

lemmas checkExplosions_eval =
  checkExplosions_done checkExplosions_miss checkExplosions_kill checkExplosions_spark
  overlaps_def hypot_less_iff recordHit_def

lemmas world_eval = explodeAtRnd_def explodeAt_def dateNow_def mathRandom_def pushExplosion_def
  handleKill_def baseScore_def diffMult_def COMBO_TIMEOUT_def

lemmas sample_defs = sampleProps_def sampleGame_def sampleEnemy_def sampleBlast_def
  uniformUpgrades_def

lemmas stats_defs = interceptorSpeed_def explosionMaxRadius_def fireCooldown_def
  shieldMaxEnergy_def turretCooldown_def

lemmas spawn_eval = spawnEnemies_def getEnemyConfig_def scheduleNextSpawn_def
  newBuilding_def entryLevelsOf_def availableTypes_def spawnRate_def baseRate_def
  rateMod_def frac_def typeSpeedMultiplier_def typeColor_def Let_def

lemmas tick_eval = update_def gameplay_def comboTimeoutCheck_def advanceLevelTimer_def
  LEVEL_DURATION_def audioWarning_def autoTurret_def closestStep_def enemyStep_def moveEnemy_def
  pushTrail_def shieldBlocks_def distToShield_def visualShieldRadius_def shieldAbsorb_def
  damageShield_def groundImpact_def impactBuilding_def impactRadius_def breakCombo_def
  removeAt_def projectileStep_def projectileHit_def interceptorStep_def explosionStep_def
  updateExplosion_def

section \<open>The claims\<close>

subsection \<open>C1: one blast and a Heavy enemy\<close>


subsection \<open>C2: ageing of explosions\<close>

text \<open>
  Claim C2, as amended. In one tick (lines 753 to 763) the current radius of every
  explosion grows by \<open>100 * deltaTime\<close>, in the growth phase and in the fade phase
  alike: it is not frozen at \<^verbatim>\<open>maxRadius\<close>. In a tick after whose growth the radius
  exceeds \<^verbatim>\<open>maxRadius\<close>, alpha also drops by \<open>2 * deltaTime\<close>, and the explosion is
  removed in the first such tick that leaves alpha at or below zero; nothing else changes.
  The loop applies this to every explosion of the array once. The area-collision check
  looks at neither alpha nor \<^verbatim>\<open>maxRadius\<close>: an explosion in either phase whose current
  radius reaches an enemy that has not recorded it damages the enemy.
\<close>

theorem explosion_ageing:
  "(case updateExplosion deltaTime ex of
      None \<Rightarrow> maxRadius ex < currentRadius ex + 100 * deltaTime \<and> alpha ex - 2 * deltaTime \<le> 0
    | Some ex' \<Rightarrow>
        ex' = ex\<lparr>currentRadius := currentRadius ex + 100 * deltaTime,
                 alpha := (if maxRadius ex < currentRadius ex + 100 * deltaTime
                           then alpha ex - 2 * deltaTime else alpha ex)\<rparr>
        \<and> (maxRadius ex < currentRadius ex + 100 * deltaTime \<longrightarrow> 0 < alpha ex'))
   \<and> explosions (updateExplosions deltaTime (length (explosions s)) s)
       = List.map_filter (updateExplosion deltaTime) (explosions s)
   \<and> (k < length (explosions s) \<and> overlaps enemy (explosions s ! k)
        \<and> ex_id (explosions s ! k) \<notin> set (hitByExplosionIds enemy)
      \<longrightarrow> health (fst (snd (checkExplosions p now k enemy s))) < health enemy)"
proof (intro conjI)
  show "case updateExplosion deltaTime ex of
      None \<Rightarrow> maxRadius ex < currentRadius ex + 100 * deltaTime \<and> alpha ex - 2 * deltaTime \<le> 0
    | Some ex' \<Rightarrow>
        ex' = ex\<lparr>currentRadius := currentRadius ex + 100 * deltaTime,
                 alpha := (if maxRadius ex < currentRadius ex + 100 * deltaTime
                           then alpha ex - 2 * deltaTime else alpha ex)\<rparr>
        \<and> (maxRadius ex < currentRadius ex + 100 * deltaTime \<longrightarrow> 0 < alpha ex')"
    by (simp add: updateExplosion_def Let_def)
  show "explosions (updateExplosions deltaTime (length (explosions s)) s)
       = List.map_filter (updateExplosion deltaTime) (explosions s)"
    by (simp add: updateExplosions_explosions)
  show "k < length (explosions s) \<and> overlaps enemy (explosions s ! k)
        \<and> ex_id (explosions s ! k) \<notin> set (hitByExplosionIds enemy)
      \<longrightarrow> health (fst (snd (checkExplosions p now k enemy s))) < health enemy"
    using checkExplosions_damages by blast
qed

theorem explosion_ageing_witness:
  "updateExplosion (1 / 20) (sampleBlast 58 1) = Some (sampleBlast 63 (9 / 10))
   \<and> updateExplosion (1 / 20) (sampleBlast 80 (1 / 10)) = None
   \<and> explosions (updateExplosions (1 / 20) 2
        (sampleGame\<lparr>explosions := [sampleBlast 58 1, sampleBlast 80 (1 / 10)]\<rparr>))
      = [sampleBlast 63 (9 / 10)]
   \<and> health (fst (snd (checkExplosions sampleProps 100000 0 (sampleEnemy STANDARD 100 48 1)
        (sampleGame\<lparr>explosions := [sampleBlast 63 (9 / 10)]\<rparr>))))
      < health (sampleEnemy STANDARD 100 48 1)"
  using explosion_ageing[where deltaTime = "1 / 20" and ex = "sampleBlast 58 1"
          and s = "sampleGame\<lparr>explosions := [sampleBlast 58 1, sampleBlast 80 (1 / 10)]\<rparr>"
          and k = 0 and enemy = "sampleEnemy STANDARD 100 48 1" and p = sampleProps
          and now = 100000]
        explosion_ageing[where deltaTime = "1 / 20" and ex = "sampleBlast 80 (1 / 10)"
          and s = "sampleGame\<lparr>explosions := [sampleBlast 63 (9 / 10)]\<rparr>"
          and k = 0 and enemy = "sampleEnemy STANDARD 100 48 1" and p = sampleProps
          and now = 100000]
  by (simp add: updateExplosion_def sample_defs List.map_filter_simps checkExplosions_eval
      numeral_2_eq_2)

text \<open>
  The claim as stated fails: an explosion that has reached \<^verbatim>\<open>maxRadius = 60\<close> has
  radius 65 after the first tick of its fade phase and 70 after the second.
\<close>

theorem radius_frozen_counterexample:
  "updateExplosion (1 / 20) (sampleBlast 60 1) = Some (sampleBlast 65 (9 / 10))
   \<and> maxRadius (sampleBlast 65 (9 / 10)) = 60
   \<and> updateExplosion (1 / 20) (sampleBlast 65 (9 / 10)) = Some (sampleBlast 70 (8 / 10))"
  by (simp add: updateExplosion_def sampleBlast_def)

subsection \<open>C3: a stalled tick is skipped\<close>

text \<open>
  Claim C3. When the delta-time of a call of \<^verbatim>\<open>update\<close>, \<open>(time - lastTime) / 1000\<close>,
  exceeds 0.1 seconds, the call returns before any gameplay code runs: buildings, enemies,
  interceptors, turret projectiles, explosions, shield energy, combo multiplier, level
  timer, spawn schedule, score and level stats are the same after the call as before it.
  Only the time stamp of the last frame (and the position of the clock that was read)
  differ.
\<close>

theorem stalled_tick_skipped:
  assumes "(time - lastTime s) / 1000 > 0.1"
  shows "let s' = snd (update p time s) in
           buildings s' = buildings s \<and> enemies s' = enemies s
           \<and> interceptors s' = interceptors s \<and> projectiles s' = projectiles s
           \<and> explosions s' = explosions s \<and> shieldEnergy s' = shieldEnergy s
           \<and> multiplier s' = multiplier s \<and> lastKillTime s' = lastKillTime s
           \<and> levelTime s' = levelTime s \<and> nextSpawnTime s' = nextSpawnTime s
           \<and> displayScore s' = displayScore s
           \<and> buildingsLostInLevel s' = buildingsLostInLevel s
           \<and> enemiesDestroyed s' = enemiesDestroyed s
           \<and> s' = s\<lparr>lastTime := lastTime s', clockPos := clockPos s'\<rparr>
           \<and> (fst (update p time s) = Stalled \<or> fst (update p time s) = NotRunning)"
  using assms by (simp add: update_def dateNow_def Let_def)

theorem stalled_tick_skipped_witness:
  "update sampleProps 150 (sampleGame\<lparr>enemies := [sampleEnemy STANDARD 100 100 1]\<rparr>)
   = (Stalled, sampleGame\<lparr>enemies := [sampleEnemy STANDARD 100 100 1], lastTime := 150,
                          clockPos := 1\<rparr>)"
  using stalled_tick_skipped[where time = 150 and p = sampleProps
          and s = "sampleGame\<lparr>enemies := [sampleEnemy STANDARD 100 100 1]\<rparr>"]
  by (simp add: update_def dateNow_def sample_defs)

subsection \<open>C4: the combo multiplier\<close>

text \<open>
  Claim C4 says that the combo multiplier stays in \<open>[1, 10]\<close>, that a kill within the
  timeout window raises it by one up to 10, and that it resets to 1 exactly when
  \<open>now - lastKillTime\<close> exceeds the timeout or a building is lost. The bounds hold over
  every tick (\<open>comboInRange_tick\<close>), and \<open>handleKill_multiplier\<close> and
  \<open>comboTimeoutCheck_multiplier\<close> give the two updates. They disagree where
  \<open>now - lastKillTime\<close> equals the timeout of 2500 ms: the check at the start of the
  tick keeps the multiplier (the timeout is not exceeded), and a kill in the same tick
  resets it. The theorem evaluates the code there: a multiplier of 3 survives the timeout
  check and is reset to 1 by the kill, which scores 10; one millisecond earlier the same
  kill raises the multiplier to 4 and scores 40.
\<close>

theorem combo_boundary_reset:
  "multiplier (comboTimeoutCheck 100000 (sampleGame\<lparr>multiplier := 3, lastKillTime := 97500\<rparr>)) = 3
   \<and> multiplier (handleKill sampleProps 100000 (sampleEnemy STANDARD 100 100 1)
        (comboTimeoutCheck 100000 (sampleGame\<lparr>multiplier := 3, lastKillTime := 97500\<rparr>))) = 1
   \<and> multiplier (snd (update (sampleProps\<lparr>upgradeStats := uniformUpgrades 0\<rparr>) 16
        (sampleGame\<lparr>multiplier := 3, lastKillTime := 97500, nextSpawnTime := 5,
           enemies := [sampleEnemy STANDARD 100 100 1], explosions := [sampleBlast 30 1]\<rparr>))) = 1
   \<and> displayScore (snd (update (sampleProps\<lparr>upgradeStats := uniformUpgrades 0\<rparr>) 16
        (sampleGame\<lparr>multiplier := 3, lastKillTime := 97500, nextSpawnTime := 5,
           enemies := [sampleEnemy STANDARD 100 100 1], explosions := [sampleBlast 30 1]\<rparr>))) = 10
   \<and> multiplier (snd (update (sampleProps\<lparr>upgradeStats := uniformUpgrades 0\<rparr>) 16
        (sampleGame\<lparr>multiplier := 3, lastKillTime := 97501, nextSpawnTime := 5,
           enemies := [sampleEnemy STANDARD 100 100 1], explosions := [sampleBlast 30 1]\<rparr>))) = 4
   \<and> displayScore (snd (update (sampleProps\<lparr>upgradeStats := uniformUpgrades 0\<rparr>) 16
        (sampleGame\<lparr>multiplier := 3, lastKillTime := 97501, nextSpawnTime := 5,
           enemies := [sampleEnemy STANDARD 100 100 1], explosions := [sampleBlast 30 1]\<rparr>))) = 40"
  by (simp add: hypot_axis hypot_scaled tick_eval sample_defs stats_defs world_eval spawn_eval
      checkExplosions_eval)

subsection \<open>C5: absorption by the shield\<close>

text \<open>
  Claim C5, as amended. While the shield is owned (level above zero) and its energy is
  positive, an enemy is absorbed exactly when its distance to the fixed position of the
  shield, \<open>(width / 2, height - 20)\<close>, is less than
  \<open>180 * (0.9 + 0.1 * energy / maxEnergy)\<close>: the radius follows the remaining energy and
  lies above 162 and at or below 180 while the energy is within its maximum, so there is
  no single radius. Whether an enemy is absorbed does not depend on its health. An
  absorbed enemy ends its turn in the tick at once: it is removed from the array and
  counted as a kill, the shield pays 30 of energy (clamped at zero), one explosion is
  added, and neither the explosion check nor the ground check runs for it, so no building
  changes. An enemy at or beyond the radius is not absorbed: its turn is the explosion
  check and the ground check, and the energy and the hit time of the shield stay as they
  were. So the energy drops in the turn of an enemy exactly when the enemy is inside the
  radius.
\<close>

theorem shield_absorption:
  assumes "0 < shieldLevel (upgradeStats p)" and "0 < shieldEnergy s"
  shows "shieldBlocks p width height enemy s
           = (distToShield width height enemy
                < 180 * (0.9 + 0.1 * (shieldEnergy s / (100 * shieldLevel (upgradeStats p)))))
         \<and> shieldBlocks p width height (enemy\<lparr>health := hp, maxHealth := mhp\<rparr>) s
             = shieldBlocks p width height enemy s
         \<and> (shieldEnergy s \<le> shieldMaxEnergy (upgradeStats p) \<longrightarrow>
               162 < visualShieldRadius (upgradeStats p) (shieldEnergy s)
               \<and> visualShieldRadius (upgradeStats p) (shieldEnergy s) \<le> 180)
         \<and> (shieldBlocks p width height (snd (moveEnemy dt (enemies s ! i))) s \<longrightarrow>
               enemyStep p now dt width height i s
                 = (False, shieldAbsorb p now i (snd (moveEnemy dt (enemies s ! i))) s)
               \<and> enemies (snd (enemyStep p now dt width height i s)) = removeAt i (enemies s)
               \<and> enemiesDestroyed (snd (enemyStep p now dt width height i s))
                   = Suc (enemiesDestroyed s)
               \<and> buildings (snd (enemyStep p now dt width height i s)) = buildings s
               \<and> length (explosions (snd (enemyStep p now dt width height i s)))
                   = Suc (length (explosions s))
               \<and> shieldEnergy (snd (enemyStep p now dt width height i s))
                   = max 0 (shieldEnergy s - 30))
         \<and> (\<not> shieldBlocks p width height (snd (moveEnemy dt (enemies s ! i))) s \<longrightarrow>
               enemyStep p now dt width height i s
                 = (let (t, enemy) = moveEnemy dt (enemies s ! i);
                        (destroyed, enemy1, s1) = checkExplosions p now 0 enemy s
                    in if destroyed then (False, s1\<lparr>enemies := removeAt i (enemies s1)\<rparr>)
                       else if t \<ge> 1 \<or> e_y enemy1 \<ge> height - 40
                       then groundImpact height i enemy1 s1
                       else (False, s1\<lparr>enemies := (enemies s1)[i := enemy1]\<rparr>))
               \<and> shieldEnergy (snd (enemyStep p now dt width height i s)) = shieldEnergy s
               \<and> shieldHitTime (snd (enemyStep p now dt width height i s)) = shieldHitTime s)
         \<and> (shieldEnergy (snd (enemyStep p now dt width height i s)) < shieldEnergy s)
             = (distToShield width height (snd (moveEnemy dt (enemies s ! i)))
                  < 180 * (0.9 + 0.1 * (shieldEnergy s / (100 * shieldLevel (upgradeStats p)))))"
proof -
  let ?e = "snd (moveEnemy dt (enemies s ! i))"
  let ?r = "enemyStep p now dt width height i s"
  have radius: "shieldBlocks p width height e s
           = (distToShield width height e
                < 180 * (0.9 + 0.1 * (shieldEnergy s / (100 * shieldLevel (upgradeStats p)))))"
    for e
    using assms
    by (simp add: shieldBlocks_def visualShieldRadius_def shieldMaxEnergy_def mult.commute)
  have health: "shieldBlocks p width height (enemy\<lparr>health := hp, maxHealth := mhp\<rparr>) s
             = shieldBlocks p width height enemy s"
    by (simp add: shieldBlocks_def distToShield_def)
  have range: "162 < visualShieldRadius (upgradeStats p) (shieldEnergy s)
               \<and> visualShieldRadius (upgradeStats p) (shieldEnergy s) \<le> 180"
    if le: "shieldEnergy s \<le> shieldMaxEnergy (upgradeStats p)"
  proof -
    let ?q = "shieldEnergy s / shieldMaxEnergy (upgradeStats p)"
    have m: "0 < shieldMaxEnergy (upgradeStats p)"
      using assms(1) by (simp add: shieldMaxEnergy_def)
    have "0 < ?q" using assms(2) m by simp
    moreover have "?q \<le> 1" using le m by simp
    ultimately show ?thesis by (simp add: visualShieldRadius_def Let_def)
  qed
  have inside: "?r = (False, shieldAbsorb p now i ?e s)
               \<and> enemies (snd ?r) = removeAt i (enemies s)
               \<and> enemiesDestroyed (snd ?r) = Suc (enemiesDestroyed s)
               \<and> buildings (snd ?r) = buildings s
               \<and> length (explosions (snd ?r)) = Suc (length (explosions s))
               \<and> shieldEnergy (snd ?r) = max 0 (shieldEnergy s - 30)"
    if b: "shieldBlocks p width height ?e s"
  proof -
    from b have eq: "?r = (False, shieldAbsorb p now i ?e s)"
      by (simp add: enemyStep_def case_prod_beta)
    have "length (explosions (shieldAbsorb p now i ?e s)) = Suc (length (explosions s))"
      by (simp add: shieldAbsorb_def Let_def case_prod_beta dateNow_def damageShield_def
          explodeAt_explosions)
    with eq show ?thesis by (simp add: shieldAbsorb_fields)
  qed
  note outside = enemyStep_unshielded[of p width height dt s i now]
  have drop: "(shieldEnergy (snd ?r) < shieldEnergy s) = shieldBlocks p width height ?e s"
  proof (cases "shieldBlocks p width height ?e s")
    case True
    with inside have "shieldEnergy (snd ?r) = max 0 (shieldEnergy s - 30)" by blast
    with assms(2) True show ?thesis by simp
  next
    case False
    with outside(2) show ?thesis by simp
  qed
  show ?thesis
    using radius[of enemy] health range inside outside drop[unfolded radius[of ?e]]
    by blast
qed

text \<open>
  At energy 10 the radius is 163.8: an enemy 160 away from the centre of the shield is
  absorbed and the energy falls to 0; an enemy 170 away is not absorbed, stays in the
  array where it is, and the energy stays 10.
\<close>

theorem shield_absorption_witness:
  "shieldBlocks sampleProps 800 600 (sampleEnemy HEAVY 560 580 3) (sampleGame\<lparr>shieldEnergy := 10\<rparr>)
   \<and> \<not> shieldBlocks sampleProps 800 600 (sampleEnemy HEAVY 570 580 3)
          (sampleGame\<lparr>shieldEnergy := 10\<rparr>)
   \<and> visualShieldRadius (upgradeStats sampleProps) 10 = 1638 / 10
   \<and> enemies (snd (enemyStep sampleProps 100000 0 800 600 0
        (sampleGame\<lparr>shieldEnergy := 10, enemies := [sampleEnemy HEAVY 400 420 3]\<rparr>))) = []
   \<and> shieldEnergy (snd (enemyStep sampleProps 100000 0 800 600 0
        (sampleGame\<lparr>shieldEnergy := 10, enemies := [sampleEnemy HEAVY 400 420 3]\<rparr>))) = 0
   \<and> map e_y (enemies (snd (enemyStep sampleProps 100000 0 800 600 0
        (sampleGame\<lparr>shieldEnergy := 10, enemies := [sampleEnemy HEAVY 400 410 3]\<rparr>)))) = [410]
   \<and> shieldEnergy (snd (enemyStep sampleProps 100000 0 800 600 0
        (sampleGame\<lparr>shieldEnergy := 10, enemies := [sampleEnemy HEAVY 400 410 3]\<rparr>))) = 10
   \<and> enemiesDestroyed (snd (enemyStep sampleProps 100000 0 800 600 0
        (sampleGame\<lparr>shieldEnergy := 10, enemies := [sampleEnemy HEAVY 400 410 3]\<rparr>))) = 0"
  using shield_absorption[where p = sampleProps
          and s = "sampleGame\<lparr>shieldEnergy := 10, enemies := [sampleEnemy HEAVY 400 420 3]\<rparr>"
          and width = 800 and height = 600 and enemy = "sampleEnemy HEAVY 560 580 3"
          and hp = 1 and mhp = 1 and dt = 0 and i = 0 and now = 100000]
        shield_absorption[where p = sampleProps
          and s = "sampleGame\<lparr>shieldEnergy := 10, enemies := [sampleEnemy HEAVY 400 410 3]\<rparr>"
          and width = 800 and height = 600 and enemy = "sampleEnemy HEAVY 570 580 3"
          and hp = 1 and mhp = 1 and dt = 0 and i = 0 and now = 100000]
  by (simp add: hypot_axis tick_eval sample_defs stats_defs world_eval checkExplosions_eval)

text \<open>
  The claim as stated fails: an enemy 170 away from the shield is absorbed at energy 100
  (radius 180) and passes at energy 10 (radius 163.8), both energies positive.
\<close>

theorem fixed_radius_counterexample:
  "shieldBlocks sampleProps 800 600 (sampleEnemy STANDARD 570 580 1) sampleGame
   \<and> \<not> shieldBlocks sampleProps 800 600 (sampleEnemy STANDARD 570 580 1)
          (sampleGame\<lparr>shieldEnergy := 10\<rparr>)
   \<and> 0 < shieldEnergy sampleGame \<and> 0 < shieldEnergy (sampleGame\<lparr>shieldEnergy := 10\<rparr>)"
  by (simp add: hypot_axis tick_eval sample_defs stats_defs)

subsection \<open>C6: shield energy\<close>

text \<open>
  Claim C6, as amended. Provided the shield level is not negative, the shield energy
  stays in \<open>[0, max]\<close>: the start of a level sets it to its maximum, \<open>100\<close> times the
  shield level; every absorption takes the fixed cost 30 and clamps at zero; no tick and
  no click raises the energy, and a tick keeps an energy within \<open>[0, max]\<close> within it. A
  shield of energy 100 that absorbs four enemies in sequence has energy 70, 40, 10 and 0.
  The component does not validate the level: with a negative shield level the level starts
  at the negative energy \<open>100 * shieldLevel\<close>, and a negative energy stays negative.
\<close>

theorem shield_energy_bounds:
  "(canvas p \<noteq> None \<longrightarrow> shieldEnergy (initLevel p s) = shieldMaxEnergy (upgradeStats p))
   \<and> (canvas p \<noteq> None \<and> 0 \<le> shieldLevel (upgradeStats p) \<longrightarrow>
        0 \<le> shieldEnergy (initLevel p s)
        \<and> shieldEnergy (initLevel p s) \<le> shieldMaxEnergy (upgradeStats p))
   \<and> (canvas p \<noteq> None \<and> shieldLevel (upgradeStats p) < 0 \<longrightarrow>
        shieldEnergy (initLevel p s) < 0)
   \<and> shieldEnergy (shieldAbsorb p now i enemy s) = max 0 (shieldEnergy s - 30)
   \<and> shieldEnergy (snd (update p time s)) \<le> shieldEnergy s
   \<and> (0 \<le> shieldEnergy s \<longrightarrow> 0 \<le> shieldEnergy (snd (update p time s)))
   \<and> (shieldEnergy s < 0 \<longrightarrow> shieldEnergy (snd (update p time s)) < 0)
   \<and> (0 \<le> shieldEnergy s \<and> shieldEnergy s \<le> shieldMaxEnergy (upgradeStats p) \<longrightarrow>
        0 \<le> shieldEnergy (snd (update p time s))
        \<and> shieldEnergy (snd (update p time s)) \<le> shieldMaxEnergy (upgradeStats p))
   \<and> shieldEnergy (handleCanvasClick p cx cy s) = shieldEnergy s
   \<and> (shieldEnergy s = 100 \<longrightarrow>
        (let s1 = shieldAbsorb p now i enemy s; s2 = shieldAbsorb p nowB iB enemyB s1;
             s3 = shieldAbsorb p nowC iC enemyC s2; s4 = shieldAbsorb p nowD iD enemyD s3
         in shieldEnergy s1 = 70 \<and> shieldEnergy s2 = 40 \<and> shieldEnergy s3 = 10
            \<and> shieldEnergy s4 = 0))"
proof -
  have "shieldEnergy (handleCanvasClick p cx cy s) = shieldEnergy s"
    by (simp add: handleCanvasClick_def Let_def case_prod_beta dateNow_def mathRandom_def
        split: option.splits)
  moreover have "canvas p \<noteq> None \<longrightarrow> shieldEnergy (initLevel p s) = shieldMaxEnergy (upgradeStats p)"
    by (auto simp add: initLevel_def Let_def shieldMaxEnergy_def split: option.splits)
  moreover have "0 \<le> shieldLevel (upgradeStats p) \<longrightarrow> 0 \<le> shieldMaxEnergy (upgradeStats p)"
    by (simp add: shieldMaxEnergy_def)
  moreover have "shieldLevel (upgradeStats p) < 0 \<longrightarrow> shieldMaxEnergy (upgradeStats p) < 0"
    by (simp add: shieldMaxEnergy_def mult_less_0_iff)
  ultimately show ?thesis
    using update_fields[of s p time]
    by (simp add: shieldAbsorb_fields Let_def)
qed

theorem shield_energy_bounds_witness:
  "shieldEnergy (initLevel sampleProps (sampleSiege 100)) = 100
   \<and> (let s1 = shieldAbsorb sampleProps 100000 0 (sampleEnemy HEAVY 560 580 3) (sampleSiege 100);
           s2 = shieldAbsorb sampleProps 100016 0 (sampleEnemy HEAVY 460 580 3) s1;
           s3 = shieldAbsorb sampleProps 100032 0 (sampleEnemy FAST 400 430 1) s2;
           s4 = shieldAbsorb sampleProps 100048 0 (sampleEnemy STANDARD 300 500 1) s3
       in map shieldEnergy [s1, s2, s3, s4] = [70, 40, 10, 0])
   \<and> shieldEnergy (snd (update sampleProps 16 (sampleSiege 100))) = 70
   \<and> shieldEnergy (snd (update sampleProps 16 (sampleSiege 10))) = 0
   \<and> enemies (snd (update sampleProps 16 (sampleSiege 10))) = []
   \<and> shieldEnergy (initLevel (sampleProps\<lparr>upgradeStats := uniformUpgrades (- 2)\<rparr>)
        (sampleSiege (- 200))) = - 200
   \<and> shieldEnergy (snd (update (sampleProps\<lparr>upgradeStats := uniformUpgrades (- 2)\<rparr>) 16
        (sampleSiege (- 200)))) = - 200"
proof -
  have seq: "shieldEnergy (initLevel sampleProps (sampleSiege 100)) = 100
   \<and> (let s1 = shieldAbsorb sampleProps 100000 0 (sampleEnemy HEAVY 560 580 3) (sampleSiege 100);
           s2 = shieldAbsorb sampleProps 100016 0 (sampleEnemy HEAVY 460 580 3) s1;
           s3 = shieldAbsorb sampleProps 100032 0 (sampleEnemy FAST 400 430 1) s2;
           s4 = shieldAbsorb sampleProps 100048 0 (sampleEnemy STANDARD 300 500 1) s3
       in map shieldEnergy [s1, s2, s3, s4] = [70, 40, 10, 0])"
    using shield_energy_bounds[where p = sampleProps and s = "sampleSiege 100"
        and time = 16 and cx = 0 and cy = 0
        and now = 100000 and i = 0 and enemy = "sampleEnemy HEAVY 560 580 3"
        and nowB = 100016 and iB = 0 and enemyB = "sampleEnemy HEAVY 460 580 3"
        and nowC = 100032 and iC = 0 and enemyC = "sampleEnemy FAST 400 430 1"
        and nowD = 100048 and iD = 0 and enemyD = "sampleEnemy STANDARD 300 500 1"]
    by (simp add: sampleSiege_def sampleProps_def sampleGame_def uniformUpgrades_def
        shieldMaxEnergy_def Let_def)
  have neg: "shieldEnergy (initLevel (sampleProps\<lparr>upgradeStats := uniformUpgrades (- 2)\<rparr>)
        (sampleSiege (- 200))) = - 200"
    using shield_energy_bounds[where p = "sampleProps\<lparr>upgradeStats := uniformUpgrades (- 2)\<rparr>"
        and s = "sampleSiege (- 200)"
        and time = 16 and cx = 0 and cy = 0
        and now = 100000 and i = 0 and enemy = "sampleEnemy HEAVY 560 580 3"
        and nowB = 100016 and iB = 0 and enemyB = "sampleEnemy HEAVY 460 580 3"
        and nowC = 100032 and iC = 0 and enemyC = "sampleEnemy FAST 400 430 1"
        and nowD = 100048 and iD = 0 and enemyD = "sampleEnemy STANDARD 300 500 1"]
    by (simp add: sampleSiege_def sampleProps_def sampleGame_def uniformUpgrades_def
        shieldMaxEnergy_def Let_def)
  have hit: "shieldEnergy (snd (update sampleProps 16 (sampleSiege 100))) = 70"
    by (simp add: sampleSiege_def hypot_axis hypot_scaled tick_eval sample_defs stats_defs
        world_eval spawn_eval checkExplosions_eval)
  have last: "shieldEnergy (snd (update sampleProps 16 (sampleSiege 10))) = 0"
    "enemies (snd (update sampleProps 16 (sampleSiege 10))) = []"
    by (simp_all add: sampleSiege_def hypot_axis hypot_scaled tick_eval sample_defs stats_defs
        world_eval spawn_eval checkExplosions_eval)
  have stay: "shieldEnergy (snd (update (sampleProps\<lparr>upgradeStats := uniformUpgrades (- 2)\<rparr>) 16
        (sampleSiege (- 200)))) = - 200"
    by (simp add: sampleSiege_def hypot_axis hypot_scaled tick_eval sample_defs stats_defs
        world_eval spawn_eval checkExplosions_eval)
  from seq neg hit last stay show ?thesis by simp
qed

text \<open>
  The claim as stated fails: with the shield level \<open>- 1\<close> the level starts at energy
  \<open>- 100\<close>, which is also the maximum, and the energy is still negative after a tick.
\<close>

theorem negative_shield_counterexample:
  "shieldEnergy (initLevel (sampleProps\<lparr>upgradeStats := uniformUpgrades (- 1)\<rparr>) sampleGame)
     = - 100
   \<and> shieldMaxEnergy (uniformUpgrades (- 1)) = - 100
   \<and> shieldEnergy (snd (update (sampleProps\<lparr>upgradeStats := uniformUpgrades (- 1)\<rparr>) 16
        (initLevel (sampleProps\<lparr>upgradeStats := uniformUpgrades (- 1)\<rparr>) sampleGame))) < 0
   \<and> shieldEnergy (snd (update (sampleProps\<lparr>upgradeStats := uniformUpgrades (- 1)\<rparr>) 16
        (sampleSiege (- 100)))) = - 100"
proof -
  let ?p = "sampleProps\<lparr>upgradeStats := uniformUpgrades (- 1)\<rparr>"
  have start: "shieldEnergy (initLevel ?p sampleGame) = - 100"
    "shieldMaxEnergy (uniformUpgrades (- 1)) = - 100"
    by (simp_all add: initLevel_def sample_defs stats_defs)
  have tick: "shieldEnergy (snd (update ?p 16 (initLevel ?p sampleGame))) < 0"
    using update_fields[of "initLevel ?p sampleGame" ?p 16] start(1) by simp
  have stay: "shieldEnergy (snd (update ?p 16 (sampleSiege (- 100)))) = - 100"
    by (simp add: sampleSiege_def hypot_axis hypot_scaled tick_eval sample_defs stats_defs
        world_eval spawn_eval checkExplosions_eval)
  from start tick stay show ?thesis by simp
qed

subsection \<open>C7: buildings fall for good, and the game is over with the last one\<close>

text \<open>
  Claim C7. A call of \<^verbatim>\<open>update\<close> leaves every building as it was or marks it
  destroyed: a destroyed building stays destroyed, and the start of a later level of the
  run (a level other than 1) keeps the buildings. In a tick that starts with a building
  standing, \<^verbatim>\<open>onGameOver\<close> is called if and only if every building is destroyed when
  the tick ends, that is in the very tick in which the last one falls; it is only ever
  called while PLAYING. That call returns from \<^verbatim>\<open>update\<close> without a next frame, and
  once the game state is GAME_OVER a call of \<^verbatim>\<open>update\<close> changes nothing but the
  frame time stamps.
\<close>

theorem buildings_fall_for_good:
  "let r = update p time s; s' = snd r in
     onlyFall (buildings s) (buildings s')
     \<and> length (buildings s') = length (buildings s)
     \<and> (\<forall>k < length (buildings s).
           isDestroyed (buildings s ! k) \<longrightarrow> isDestroyed (buildings s' ! k))
     \<and> (\<not> list_all isDestroyed (buildings s) \<longrightarrow>
           (fst r = GameOver (renderedScore p)) = list_all isDestroyed (buildings s'))
     \<and> (\<forall>sc. fst r = GameOver sc \<longrightarrow> gameState p = PLAYING)
     \<and> fst (update (p\<lparr>gameState := GAME_OVER\<rparr>) time s) \<noteq> NextFrame
     \<and> (let s'' = snd (update (p\<lparr>gameState := GAME_OVER\<rparr>) time s) in
          s'' = s\<lparr>lastTime := lastTime s'', clockPos := clockPos s'',
                  gameOverStart := gameOverStart s''\<rparr>)
     \<and> (level p \<noteq> 1 \<and> buildings s \<noteq> [] \<longrightarrow> buildings (initLevel p s) = buildings s)"
proof -
  note u = update_fields[of s p time]
  have perm: "\<forall>k < length (buildings s).
           isDestroyed (buildings s ! k) \<longrightarrow> isDestroyed (buildings (snd (update p time s)) ! k)"
    using u onlyFall_nth by blast
  have len: "length (buildings (snd (update p time s))) = length (buildings s)"
    using u onlyFall_length by blast
  have anim: "fst (update (p\<lparr>gameState := GAME_OVER\<rparr>) time s) \<noteq> NextFrame"
    by (simp add: update_def dateNow_def Let_def split: option.splits)
  have anim2: "snd (update (p\<lparr>gameState := GAME_OVER\<rparr>) time s)
       = s\<lparr>lastTime := lastTime (snd (update (p\<lparr>gameState := GAME_OVER\<rparr>) time s)),
           clockPos := clockPos (snd (update (p\<lparr>gameState := GAME_OVER\<rparr>) time s)),
           gameOverStart := gameOverStart (snd (update (p\<lparr>gameState := GAME_OVER\<rparr>) time s))\<rparr>"
    by (simp add: update_def dateNow_def Let_def split: option.splits)
  have init: "level p \<noteq> 1 \<and> buildings s \<noteq> [] \<longrightarrow> buildings (initLevel p s) = buildings s"
    by (simp add: initLevel_def Let_def split: option.splits)
  show ?thesis
    unfolding Let_def using u perm len anim anim2 init by blast
qed

theorem buildings_fall_for_good_witness:
  "fst (update laterProps 16 (sampleRuin 200)) = GameOver 0
   \<and> map isDestroyed (buildings (snd (update laterProps 16 (sampleRuin 200)))) = [True, True]
   \<and> fst (update laterProps 16 (sampleRuin 300)) = NextFrame
   \<and> map isDestroyed (buildings (snd (update laterProps 16 (sampleRuin 300)))) = [True, False]
   \<and> enemies (snd (update laterProps 16 (sampleRuin 300))) = []
   \<and> buildings (initLevel laterProps (sampleRuin 300)) = buildings (sampleRuin 300)"
  using buildings_fall_for_good[where p = laterProps and time = 16 and s = "sampleRuin 200"]
        buildings_fall_for_good[where p = laterProps and time = 16 and s = "sampleRuin 300"]
  by (simp add: sampleRuin_def laterProps_def hypot_axis hypot_scaled tick_eval sample_defs
      stats_defs world_eval spawn_eval checkExplosions_eval)

subsection \<open>C8: the next spawn\<close>

text \<open>
  Claim C8, as amended. Whenever the Spawner spawns an enemy (the level time has passed
  the scheduled time and a building stands), it leaves the level time alone and schedules
  the next spawn at the level time plus \<open>r * spawnRate\<close>, where \<open>r\<close> is a random draw in
  \<open>[0, 1)\<close> and \<open>spawnRate\<close> is \<open>max 0.4 (2.5 - 0.15 * level)\<close> times 1.3 (easy), 1
  (medium) or 0.7 (hard). The interval is never negative and is less than \<open>spawnRate\<close>.
  The floor 0.4 bounds the base rate, which is non-increasing in the level, so that
  \<open>spawnRate\<close> is at least 0.28; it is the upper end of the interval that is kept away
  from zero, not the interval.
\<close>

theorem spawn_interval:
  assumes "levelTime s > nextSpawnTime s" and "\<exists>b \<in> set (buildings s). \<not> isDestroyed b"
  shows "let s' = spawnEnemies p width height s; interval = nextSpawnTime s' - levelTime s' in
           length (enemies s') = Suc (length (enemies s))
           \<and> levelTime s' = levelTime s
           \<and> (\<exists>r. 0 \<le> r \<and> r < 1 \<and> interval = r * spawnRate p)
           \<and> 0 \<le> interval \<and> interval < spawnRate p
           \<and> spawnRate p = max 0.4 (2.5 - 0.15 * level p)
                           * (case difficulty p of EASY \<Rightarrow> 1.3 | MEDIUM \<Rightarrow> 1 | HARD \<Rightarrow> 0.7)
           \<and> 0.28 \<le> spawnRate p
           \<and> (\<forall>lv lv'. lv \<le> lv' \<longrightarrow> baseRate lv' \<le> baseRate lv)"
proof -
  from assms(2) have "filter (\<lambda>b. \<not> isDestroyed b) (buildings s) \<noteq> []"
    by (simp add: filter_empty_conv)
  from spawnEnemies_spawns[OF assms(1) this, of p width height]
  obtain r where r: "0 \<le> r" "r < 1"
    "nextSpawnTime (spawnEnemies p width height s) = levelTime s + r * spawnRate p"
    "levelTime (spawnEnemies p width height s) = levelTime s"
    "length (enemies (spawnEnemies p width height s)) = Suc (length (enemies s))"
    by blast
  have pos: "0 < spawnRate p" using spawnRate_floor[of p] by simp
  have "0 \<le> r * spawnRate p" using r(1) pos by simp
  moreover have "r * spawnRate p < spawnRate p" using r(2) pos by simp
  moreover have "spawnRate p = max 0.4 (2.5 - 0.15 * level p)
                           * (case difficulty p of EASY \<Rightarrow> 1.3 | MEDIUM \<Rightarrow> 1 | HARD \<Rightarrow> 0.7)"
    by (simp add: spawnRate_def baseRate_def rateMod_def mult.commute split: Difficulty.splits)
  ultimately show ?thesis
    unfolding Let_def using r spawnRate_floor[of p] baseRate_bounds(2) by auto
qed

theorem spawn_interval_witness:
  "length (enemies (spawnEnemies sampleProps 800 600 (sampleGame\<lparr>levelTime := 2\<rparr>))) = 1
   \<and> nextSpawnTime (spawnEnemies sampleProps 800 600
        (sampleGame\<lparr>levelTime := 2, randoms := (\<lambda>n. 1 / 2)\<rparr>)) = 2 + (1 / 2) * (47 / 20)
   \<and> spawnRate sampleProps = 47 / 20
   \<and> spawnRate (sampleProps\<lparr>level := 20, difficulty := HARD\<rparr>) = 28 / 100"
  using spawn_interval[where s = "sampleGame\<lparr>levelTime := 2\<rparr>" and p = sampleProps
          and width = 800 and height = 600]
        spawn_interval[where s = "sampleGame\<lparr>levelTime := 2, randoms := (\<lambda>n. 1 / 2)\<rparr>"
          and p = sampleProps and width = 800 and height = 600]
  by (simp add: sample_defs spawn_eval world_eval)

text \<open>
  The claim as stated fails: with a draw of 0 the spawner schedules the next spawn at the
  current level time, an interval of 0, below every positive floor.
\<close>

theorem spawn_floor_counterexample:
  "nextSpawnTime (spawnEnemies sampleProps 800 600 (sampleGame\<lparr>levelTime := 2\<rparr>)) - 2 = 0
   \<and> levelTime (spawnEnemies sampleProps 800 600 (sampleGame\<lparr>levelTime := 2\<rparr>)) = 2
   \<and> length (enemies (spawnEnemies sampleProps 800 600 (sampleGame\<lparr>levelTime := 2\<rparr>))) = 1"
  by (simp add: sample_defs spawn_eval world_eval)

subsection \<open>C9: upgrade levels are not validated\<close>

text \<open>
  Claim C9, as amended. The derived parameters are computed from the upgrade levels as
  they come (lines 66 to 74): interceptor speed \<open>600 + 150 l\<close>, blast radius
  \<open>60 + 15 l\<close>, fire cooldown \<open>max 100 (500 - 50 l)\<close>, shield capacity \<open>100 l\<close>, turret
  cooldown \<open>max 200 (1000 - 100 l)\<close>. A negative level is not replaced by zero: it gives
  a speed, a radius and a capacity below those of level zero and cooldowns above those
  of level zero. For every input the two cooldowns stay at or above 100 ms and 200 ms.
  The simulation treats a non-positive level like level zero only where it gates a
  subsystem: the turret does not fire and the shield does not block.
\<close>

theorem derived_stats_unvalidated:
  "interceptorSpeed u = 600 + 150 * speedLevel u
   \<and> explosionMaxRadius u = 60 + 15 * radiusLevel u
   \<and> fireCooldown u = max 100 (500 - 50 * rateLevel u)
   \<and> shieldMaxEnergy u = 100 * shieldLevel u
   \<and> turretCooldown u = max 200 (1000 - 100 * turretLevel u)
   \<and> (speedLevel u < 0 \<longrightarrow> interceptorSpeed u < interceptorSpeed (u\<lparr>speedLevel := 0\<rparr>))
   \<and> (radiusLevel u < 0 \<longrightarrow> explosionMaxRadius u < explosionMaxRadius (u\<lparr>radiusLevel := 0\<rparr>))
   \<and> (rateLevel u < 0 \<longrightarrow> fireCooldown (u\<lparr>rateLevel := 0\<rparr>) < fireCooldown u)
   \<and> (shieldLevel u < 0 \<longrightarrow> shieldMaxEnergy u < shieldMaxEnergy (u\<lparr>shieldLevel := 0\<rparr>))
   \<and> (turretLevel u < 0 \<longrightarrow> turretCooldown (u\<lparr>turretLevel := 0\<rparr>) < turretCooldown u)
   \<and> 100 \<le> fireCooldown u \<and> 200 \<le> turretCooldown u
   \<and> (turretLevel u \<le> 0 \<longrightarrow> autoTurret (p\<lparr>upgradeStats := u\<rparr>) now height s = s)
   \<and> (shieldLevel u \<le> 0 \<longrightarrow> \<not> shieldBlocks (p\<lparr>upgradeStats := u\<rparr>) width height enemy s)"
  by (simp add: stats_defs autoTurret_def shieldBlocks_def mult.commute)

theorem derived_stats_unvalidated_witness:
  "interceptorSpeed (uniformUpgrades (- 1)) < interceptorSpeed (uniformUpgrades 0)
   \<and> explosionMaxRadius (uniformUpgrades (- 1)) < explosionMaxRadius (uniformUpgrades 0)
   \<and> fireCooldown (uniformUpgrades 0) < fireCooldown (uniformUpgrades (- 1))
   \<and> shieldMaxEnergy (uniformUpgrades (- 1)) < shieldMaxEnergy (uniformUpgrades 0)
   \<and> turretCooldown (uniformUpgrades 0) < turretCooldown (uniformUpgrades (- 1))
   \<and> autoTurret (sampleProps\<lparr>upgradeStats := uniformUpgrades (- 1)\<rparr>) 100000 600
        (sampleGame\<lparr>enemies := [sampleEnemy STANDARD 100 100 1]\<rparr>)
       = sampleGame\<lparr>enemies := [sampleEnemy STANDARD 100 100 1]\<rparr>
   \<and> \<not> shieldBlocks (sampleProps\<lparr>upgradeStats := uniformUpgrades (- 1)\<rparr>) 800 600
          (sampleEnemy STANDARD 400 570 1) sampleGame"
  using derived_stats_unvalidated[where u = "uniformUpgrades (- 1)" and p = sampleProps
          and now = 100000 and height = 600 and width = 800
          and s = "sampleGame\<lparr>enemies := [sampleEnemy STANDARD 100 100 1]\<rparr>"
          and enemy = "sampleEnemy STANDARD 400 570 1"]
        derived_stats_unvalidated[where u = "uniformUpgrades (- 1)" and p = sampleProps
          and now = 100000 and height = 600 and width = 800
          and s = sampleGame
          and enemy = "sampleEnemy STANDARD 400 570 1"]
  by (simp add: uniformUpgrades_def stats_defs)

text \<open>
  The claim as stated fails at level \<open>- 1\<close>: none of the five parameters equals its value
  at level zero.
\<close>

theorem malformed_upgrade_counterexample:
  "interceptorSpeed (uniformUpgrades (- 1)) = 450 \<and> interceptorSpeed (uniformUpgrades 0) = 600
   \<and> explosionMaxRadius (uniformUpgrades (- 1)) = 45 \<and> explosionMaxRadius (uniformUpgrades 0) = 60
   \<and> fireCooldown (uniformUpgrades (- 1)) = 550 \<and> fireCooldown (uniformUpgrades 0) = 500
   \<and> shieldMaxEnergy (uniformUpgrades (- 1)) = - 100 \<and> shieldMaxEnergy (uniformUpgrades 0) = 0
   \<and> turretCooldown (uniformUpgrades (- 1)) = 1100 \<and> turretCooldown (uniformUpgrades 0) = 1000"
  by (simp add: uniformUpgrades_def stats_defs)

subsection \<open>C10: fire cooldown\<close>

text \<open>
  Claim C10. While the game is PLAYING, a click whose clock reading is less than
  \<^verbatim>\<open>fireCooldown\<close> milliseconds after the last accepted shot changes nothing in the
  game: no interceptor is created and the time of the last shot stays (the model only
  notes that the clock was read). \<^verbatim>\<open>fireCooldown\<close> is \<open>max 100 (500 - 50 * rateLevel)\<close>,
  at least 100 for every upgrade level. A click adds at most one interceptor, and after a
  click that launched one, a click read less than 100 ms later launches nothing, whatever
  the upgrade levels.
\<close>

theorem fire_cooldown:
  assumes "gameState p = PLAYING"
  shows "(clock s (clockPos s) - lastShotTime s < fireCooldown (upgradeStats p)
            \<longrightarrow> handleCanvasClick p cx cy s = s\<lparr>clockPos := Suc (clockPos s)\<rparr>)
         \<and> fireCooldown (upgradeStats p) = max 100 (500 - 50 * rateLevel (upgradeStats p))
         \<and> 100 \<le> fireCooldown (upgradeStats p)
         \<and> length (interceptors (handleCanvasClick p cx cy s)) \<le> Suc (length (interceptors s))
         \<and> (interceptors (handleCanvasClick p cx cy s) \<noteq> interceptors s
             \<and> gameState p' = PLAYING
             \<and> clock (handleCanvasClick p cx cy s) (clockPos (handleCanvasClick p cx cy s))
                 - clock s (clockPos s) < 100
            \<longrightarrow> handleCanvasClick p' cx' cy' (handleCanvasClick p cx cy s)
                = (handleCanvasClick p cx cy s)
                    \<lparr>clockPos := Suc (clockPos (handleCanvasClick p cx cy s))\<rparr>)"
proof (intro conjI impI)
  assume "clock s (clockPos s) - lastShotTime s < fireCooldown (upgradeStats p)"
  with assms show "handleCanvasClick p cx cy s = s\<lparr>clockPos := Suc (clockPos s)\<rparr>"
    by (simp add: handleCanvasClick_def dateNow_def)
next
  show "fireCooldown (upgradeStats p) = max 100 (500 - 50 * rateLevel (upgradeStats p))"
    by (simp add: fireCooldown_def)
  show "100 \<le> fireCooldown (upgradeStats p)" by (simp add: fireCooldown_def)
  show "length (interceptors (handleCanvasClick p cx cy s)) \<le> Suc (length (interceptors s))"
    by (simp add: handleCanvasClick_def dateNow_def mathRandom_def Let_def
        split: option.splits prod.splits)
next
  let ?s1 = "handleCanvasClick p cx cy s"
  assume a: "interceptors ?s1 \<noteq> interceptors s \<and> gameState p' = PLAYING
             \<and> clock ?s1 (clockPos ?s1) - clock s (clockPos s) < 100"
  have acc: "\<not> clock s (clockPos s) - lastShotTime s < fireCooldown (upgradeStats p)"
  proof
    assume "clock s (clockPos s) - lastShotTime s < fireCooldown (upgradeStats p)"
    with assms have "?s1 = s\<lparr>clockPos := Suc (clockPos s)\<rparr>"
      by (simp add: handleCanvasClick_def dateNow_def)
    with a show False by simp
  qed
  with assms have "lastShotTime ?s1 = clock s (clockPos s)"
    by (simp add: handleCanvasClick_def dateNow_def mathRandom_def Let_def
        split: option.splits prod.splits)
  moreover have "100 \<le> fireCooldown (upgradeStats p')" by (simp add: fireCooldown_def)
  ultimately have "clock ?s1 (clockPos ?s1) - lastShotTime ?s1 < fireCooldown (upgradeStats p')"
    using a by simp
  with a show "handleCanvasClick p' cx' cy' ?s1 = ?s1\<lparr>clockPos := Suc (clockPos ?s1)\<rparr>"
    by (simp add: handleCanvasClick_def[of p'] dateNow_def)
qed

theorem fire_cooldown_witness:
  "lastShotTime (handleCanvasClick sampleProps 300 200 sampleGame) = 100000
   \<and> length (interceptors (handleCanvasClick sampleProps 300 200 sampleGame)) = 1
   \<and> handleCanvasClick (sampleProps\<lparr>upgradeStats := uniformUpgrades 9\<rparr>) 310 210
        (handleCanvasClick sampleProps 300 200 sampleGame)
      = (handleCanvasClick sampleProps 300 200 sampleGame)\<lparr>clockPos := 3\<rparr>
   \<and> handleCanvasClick sampleProps 300 200 (sampleGame\<lparr>lastShotTime := 99700\<rparr>)
      = sampleGame\<lparr>lastShotTime := 99700, clockPos := 1\<rparr>"
  using fire_cooldown[where p = sampleProps and s = sampleGame and cx = 300 and cy = 200
          and p' = "sampleProps\<lparr>upgradeStats := uniformUpgrades 9\<rparr>" and cx' = 310 and cy' = 210]
        fire_cooldown[where p = sampleProps and s = "sampleGame\<lparr>lastShotTime := 99700\<rparr>"
          and cx = 300 and cy = 200 and p' = sampleProps and cx' = 310 and cy' = 210]
  by (simp add: handleCanvasClick_def dateNow_def mathRandom_def sample_defs stats_defs)

end
